theory Spec2Isabelle
  imports Main
begin

section \<open>The pipeline of tomviz (Pipeline.cxx) as a state machine\<close>

text \<open>
  Pipeline.cxx drives a tree of DataSource objects, each with a list of Operator objects,
  through a PipelineWorker. Every object the C++ reaches through a pointer lives in a store
  indexed by its address (a natural number); a pointer that may be null is an option.
  A member function that mutates objects takes the whole state and returns the new one.
  Signals emitted synchronously and the calls made to the worker are appended to
  \<open>trace\<close>; what is posted with \<open>QTimer::singleShot(0, ...)\<close> is appended to
  \<open>deferred\<close> and is not in \<open>trace\<close>.
\<close>

subsection \<open>Objects\<close>

text \<open>
  Modelled from the spec: the execution state of a Transform Step (Operator.h is not part of
  the sources): pending, finished or canceled; \<open>resetState\<close> returns it to pending.
\<close>

datatype op_state = StepPending | StepFinished | StepCanceled

text \<open>
  Modelled from the spec: a Transform Step (class Operator, Operator.h is not part of the
  sources): its owning data source, its execution state, the flag of a child it declares
  itself (\<open>hasChildDataSource\<close>), its child pointer, and whether the pipeline listens to
  its \<open>transformModified\<close> signal.
\<close>

record operator =
  op_dataSource :: nat
  op_state :: op_state
  hasChildDataSource :: bool
  childDataSource :: "nat option"
  transformModifiedConnected :: bool

datatype qparent = NoParent | PipelineParent

text \<open>
  Modelled from the spec: a Data Node (class DataSource, DataSource.h is not part of the
  sources): its label, its ordered operators, the data object it holds (none for a node just
  made), its QObject parent, whether \<open>addDataSource\<close> connected the pipeline to its signals,
  and whether \<open>deleteLater\<close> was called on it.
\<close>

record dataSource =
  ds_label :: string
  ds_operators :: "nat list"
  ds_data :: "nat option"
  ds_parent :: qparent
  ds_connected :: bool
  ds_deleteLater :: bool

text \<open>What can be connected to a signal of a handle: the two slots of the pipeline, the two
  signals of a preview that forward it, and a callback given to \<open>Pipeline::cancel\<close>.\<close>

datatype slot =
    PipelineBranchFinished
  | PipelineBranchCanceled
  | ImageFutureFinished nat
  | ImageFutureCanceled nat
  | Callback nat

text \<open>
  Modelled from the spec: an Execution Handle (class PipelineWorker::Future,
  PipelineWorker.h is not part of the sources): the step list it runs, the data object it
  works on and gives as \<open>result()\<close>, whether it runs, whether \<open>cancel()\<close> was called on
  it, the slots connected to its \<open>finished\<close> and \<open>canceled\<close> signals, and whether
  \<open>deleteLater\<close> was called on it.
\<close>

record future =
  f_operators :: "nat list"
  f_result :: nat
  f_running :: bool
  f_cancelRequested :: bool
  f_finishedSlots :: "slot list"
  f_canceledSlots :: "slot list"
  f_deleteLater :: bool

text \<open>The members of \<open>Pipeline::ImageFuture\<close>, as its constructor sets them.\<close>

record imageFuture =
  img_operator :: nat
  img_imageData :: nat
  img_future :: "nat option"

text \<open>
  What an observer of the pipeline sees, in order: the signals \<open>started\<close>, \<open>finished\<close>,
  \<open>newChildDataSource\<close>, \<open>dataSourceMoved\<close>, \<open>dataModified\<close> and
  \<open>ImageFuture::finished\<close>, and the calls \<open>PipelineWorker::run\<close>, \<open>Future::cancel()\<close>,
  \<open>Future::cancel(op)\<close> and \<open>DataSource::setData\<close>.
\<close>

datatype event =
    Started
  | Finished
  | NewChildDataSource nat nat
  | DataSourceMoved nat "nat option"
  | DataModified nat
  | ImageFinished nat bool
  | WorkerRun nat nat "nat list"
  | FutureCancel nat
  | FutureCancelFrom nat nat
  | SetData nat nat

text \<open>Where the C++ leaves defined behaviour: \<open>QList::last\<close> of an empty list, and an
  iterator that walks past the end of a list.\<close>

datatype error = LastOfEmptyList | IteratorPastEnd

text \<open>
  The pipeline with the objects it reaches: the stores of data sources, operators, handles,
  previews and data objects (\<open>'p\<close> is the opaque content of a data object), the next free
  address of each store that the pipeline allocates in, the members \<open>m_data\<close>,
  \<open>m_paused\<close>, \<open>m_future\<close>, the trace and the queue of the event loop.
\<close>

record 'p pipeline =
  dataSources :: "nat \<Rightarrow> dataSource"
  operators :: "nat \<Rightarrow> operator"
  futures :: "nat \<Rightarrow> future"
  imageFutures :: "nat \<Rightarrow> imageFuture"
  heap :: "nat \<Rightarrow> 'p option"
  nextDataSource :: nat
  nextFuture :: nat
  nextImageFuture :: nat
  nextObject :: nat
  m_data :: nat
  m_paused :: bool
  m_future :: "nat option"
  trace :: "event list"
  deferred :: "event list"

subsection \<open>Qt and the collaborators of the pipeline\<close>

text \<open>\<open>emit\<close> of a signal, and \<open>QTimer::singleShot(0, ...)\<close> of a lambda that emits one.\<close>

definition emit :: "'p pipeline \<Rightarrow> event \<Rightarrow> 'p pipeline" where
  "emit s e = s\<lparr>trace := trace s @ [e]\<rparr>"

definition singleShot :: "'p pipeline \<Rightarrow> event \<Rightarrow> 'p pipeline" where
  "singleShot s e = s\<lparr>deferred := deferred s @ [e]\<rparr>"

text \<open>\<open>QList::indexOf\<close>: the position of the first occurrence, -1 when there is none.\<close>

fun indexOf :: "'a list \<Rightarrow> 'a \<Rightarrow> int" where
  "indexOf [] x = - 1"
| "indexOf (y # ys) x =
     (if y = x then 0
      else (let i = indexOf ys x in if i < 0 then - 1 else i + 1))"

text \<open>
  \<open>QList::mid(pos)\<close> and \<open>QList::mid(pos, length)\<close>. A negative \<open>pos\<close> gives the list
  from its start; the pipeline calls them with a position found by \<open>indexOf\<close>.
\<close>

definition mid_from :: "'a list \<Rightarrow> int \<Rightarrow> 'a list" where
  "mid_from xs pos = drop (nat pos) xs"

definition mid :: "'a list \<Rightarrow> int \<Rightarrow> int \<Rightarrow> 'a list" where
  "mid xs pos len = take (nat len) (drop (nat pos) xs)"

text \<open>Modelled from the spec: \<open>DataSource::copyData\<close> (DataSource.h is not part of the
  sources) returns a new data object with the content of the one the node holds.\<close>

definition copyData :: "'p pipeline \<Rightarrow> nat \<Rightarrow> nat \<times> 'p pipeline" where
  "copyData s d =
     (nextObject s,
      s\<lparr>heap := (heap s)(nextObject s :=
             (case ds_data (dataSources s d) of None \<Rightarrow> None | Some a \<Rightarrow> heap s a)),
        nextObject := Suc (nextObject s)\<rparr>)"

text \<open>Modelled from the spec: \<open>DataSource::setData\<close> (DataSource.h is missing) makes the node
  hold the given data object.\<close>

definition setData :: "'p pipeline \<Rightarrow> nat \<Rightarrow> nat \<Rightarrow> 'p pipeline" where
  "setData s d a =
     s\<lparr>dataSources := (dataSources s)(d := (dataSources s d)\<lparr>ds_data := Some a\<rparr>),
       trace := trace s @ [SetData d a]\<rparr>"

text \<open>Modelled from the spec: \<open>DataSource::dataModified\<close> (DataSource.h is missing) notifies
  the observers of the node.\<close>

definition dataModified :: "'p pipeline \<Rightarrow> nat \<Rightarrow> 'p pipeline" where
  "dataModified s d = emit s (DataModified d)"

text \<open>Modelled from the spec: \<open>DataSource::removeAllOperators\<close> (DataSource.h is missing)
  detaches all steps of the node.\<close>

definition removeAllOperators :: "'p pipeline \<Rightarrow> nat \<Rightarrow> 'p pipeline" where
  "removeAllOperators s d =
     s\<lparr>dataSources := (dataSources s)(d := (dataSources s d)\<lparr>ds_operators := []\<rparr>)\<rparr>"

text \<open>Modelled from the spec: \<open>deleteLater\<close> on a data source discards it at the next turn
  of the event loop; the model records the request.\<close>

definition dataSource_deleteLater :: "'p pipeline \<Rightarrow> nat \<Rightarrow> 'p pipeline" where
  "dataSource_deleteLater s d =
     s\<lparr>dataSources := (dataSources s)(d := (dataSources s d)\<lparr>ds_deleteLater := True\<rparr>)\<rparr>"

text \<open>Modelled from the spec: the constructor \<open>DataSource(label)\<close> (DataSource.h is missing)
  makes a node without steps, data or parent.\<close>

definition newDataSource :: "'p pipeline \<Rightarrow> string \<Rightarrow> nat \<times> 'p pipeline" where
  "newDataSource s label =
     (nextDataSource s,
      s\<lparr>dataSources := (dataSources s)(nextDataSource s :=
             \<lparr>ds_label = label, ds_operators = [], ds_data = None, ds_parent = NoParent,
              ds_connected = False, ds_deleteLater = False\<rparr>),
        nextDataSource := Suc (nextDataSource s)\<rparr>)"

text \<open>\<open>QObject::setParent(this)\<close> on a data source: the pipeline becomes its parent.\<close>

definition setParent :: "'p pipeline \<Rightarrow> nat \<Rightarrow> 'p pipeline" where
  "setParent s d =
     s\<lparr>dataSources := (dataSources s)(d := (dataSources s d)\<lparr>ds_parent := PipelineParent\<rparr>)\<rparr>"

text \<open>Modelled from the spec: \<open>Operator::isCanceled\<close> (Operator.h is not part of the
  sources).\<close>

definition isCanceled :: "'p pipeline \<Rightarrow> nat \<Rightarrow> bool" where
  "isCanceled s op = (op_state (operators s op) = StepCanceled)"

text \<open>Modelled from the spec: \<open>Operator::resetState\<close> (Operator.h is missing) returns the
  step to pending.\<close>

definition resetState :: "'p pipeline \<Rightarrow> nat \<Rightarrow> 'p pipeline" where
  "resetState s op =
     s\<lparr>operators := (operators s)(op := (operators s op)\<lparr>op_state := StepPending\<rparr>)\<rparr>"

text \<open>Modelled from the spec: \<open>Operator::setChildDataSource\<close> (Operator.h is missing) sets
  the child pointer of the step and nothing else.\<close>

definition setChildDataSource :: "'p pipeline \<Rightarrow> nat \<Rightarrow> nat option \<Rightarrow> 'p pipeline" where
  "setChildDataSource s op c =
     s\<lparr>operators := (operators s)(op := (operators s op)\<lparr>childDataSource := c\<rparr>)\<rparr>"

text \<open>\<open>connect(op, &Operator::transformModified, this, [this]() { this->execute(); })\<close>.\<close>

definition connectTransformModified :: "'p pipeline \<Rightarrow> nat \<Rightarrow> 'p pipeline" where
  "connectTransformModified s op =
     s\<lparr>operators := (operators s)(op := (operators s op)\<lparr>transformModifiedConnected := True\<rparr>)\<rparr>"

text \<open>Modelled from the spec: \<open>PipelineWorker::run\<close> (PipelineWorker.h is not part of the
  sources) gives a new running handle for a data object and a step list.\<close>

definition worker_run :: "'p pipeline \<Rightarrow> nat \<Rightarrow> nat list \<Rightarrow> nat \<times> 'p pipeline" where
  "worker_run s data ops =
     (nextFuture s,
      s\<lparr>futures := (futures s)(nextFuture s :=
             \<lparr>f_operators = ops, f_result = data, f_running = True,
              f_cancelRequested = False, f_finishedSlots = [], f_canceledSlots = [],
              f_deleteLater = False\<rparr>),
        nextFuture := Suc (nextFuture s),
        trace := trace s @ [WorkerRun (nextFuture s) data ops]\<rparr>)"

text \<open>Modelled from the spec: \<open>Future::cancel()\<close> (PipelineWorker.h is missing) requests
  that the whole run stops; the terminal event of the handle comes later.\<close>

definition future_cancel :: "'p pipeline \<Rightarrow> nat \<Rightarrow> 'p pipeline" where
  "future_cancel s f =
     s\<lparr>futures := (futures s)(f := (futures s f)\<lparr>f_cancelRequested := True\<rparr>),
       trace := trace s @ [FutureCancel f]\<rparr>"

text \<open>Modelled from the spec: \<open>Future::cancel(op)\<close> (PipelineWorker.h is missing) asks that
  the steps from \<open>op\<close> on do not run and reports whether that was still possible. The worker
  decides: its answer is the parameter \<open>ok\<close>.\<close>

definition future_cancel_from :: "'p pipeline \<Rightarrow> nat \<Rightarrow> nat \<Rightarrow> bool \<Rightarrow> bool \<times> 'p pipeline" where
  "future_cancel_from s f op ok = (ok, emit s (FutureCancelFrom f op))"

text \<open>Modelled from the spec: \<open>deleteLater\<close> on a handle releases it at the next turn of
  the event loop; the model records the request.\<close>

definition future_deleteLater :: "'p pipeline \<Rightarrow> nat \<Rightarrow> 'p pipeline" where
  "future_deleteLater s f =
     s\<lparr>futures := (futures s)(f := (futures s f)\<lparr>f_deleteLater := True\<rparr>)\<rparr>"

text \<open>\<open>connect\<close> of a slot to the \<open>finished\<close> and to the \<open>canceled\<close> signal of a
  handle.\<close>

definition connectFinished :: "'p pipeline \<Rightarrow> nat \<Rightarrow> slot \<Rightarrow> 'p pipeline" where
  "connectFinished s f sl =
     s\<lparr>futures := (futures s)(f := (futures s f)\<lparr>f_finishedSlots := f_finishedSlots (futures s f) @ [sl]\<rparr>)\<rparr>"

definition connectCanceled :: "'p pipeline \<Rightarrow> nat \<Rightarrow> slot \<Rightarrow> 'p pipeline" where
  "connectCanceled s f sl =
     s\<lparr>futures := (futures s)(f := (futures s f)\<lparr>f_canceledSlots := f_canceledSlots (futures s f) @ [sl]\<rparr>)\<rparr>"

text \<open>Modelled from the spec: \<open>vtkObject::Delete\<close> on the result of a handle discards the
  data object.\<close>

definition deleteObject :: "'p pipeline \<Rightarrow> nat \<Rightarrow> 'p pipeline" where
  "deleteObject s a = s\<lparr>heap := (heap s)(a := None)\<rparr>"

subsection \<open>Pipeline.cxx\<close>

text \<open>\<open>Pipeline::findTransformedDataSourceOperator\<close>: the last operator of the data source
  that has a child without having declared one.\<close>

definition findTransformedDataSourceOperator :: "'p pipeline \<Rightarrow> nat \<Rightarrow> nat option" where
  "findTransformedDataSourceOperator s dataSource =
     find (\<lambda>op. \<not> hasChildDataSource (operators s op) \<and> childDataSource (operators s op) \<noteq> None)
       (rev (ds_operators (dataSources s dataSource)))"

definition findTransformedDataSource :: "'p pipeline \<Rightarrow> nat \<Rightarrow> nat option" where
  "findTransformedDataSource s dataSource =
     (case findTransformedDataSourceOperator s dataSource of
        Some op \<Rightarrow> childDataSource (operators s op)
      | None \<Rightarrow> None)"

text \<open>
  The loop of \<open>executePipelineBranch\<close> over the operators before \<open>start\<close>:
  \<open>for (itr = begin(); *itr != start; ++itr)\<close>, left at the first canceled operator.
  An iterator that walks off the list without meeting \<open>start\<close> is an error.
\<close>

datatype scan = PastEnd | HaveCanceled nat | ReachedStart

fun scanCanceled :: "(nat \<Rightarrow> operator) \<Rightarrow> nat list \<Rightarrow> nat \<Rightarrow> scan" where
  "scanCanceled ops [] start = PastEnd"
| "scanCanceled ops (x # xs) start =
     (if x = start then ReachedStart
      else if op_state (ops x) = StepCanceled then HaveCanceled x
      else scanCanceled ops xs start)"

text \<open>Lines 107-116: take the original data when none was chosen, hand data and operators to
  the worker, keep the handle in \<open>m_future\<close> and connect its two signals.\<close>

definition dispatch :: "'p pipeline \<Rightarrow> nat \<Rightarrow> nat option \<Rightarrow> nat list \<Rightarrow> 'p pipeline" where
  "dispatch s dataSource data ops =
     (case (case data of Some a \<Rightarrow> (a, s) | None \<Rightarrow> copyData s dataSource) of
        (a, s1) \<Rightarrow>
          (case worker_run s1 a ops of
             (f, s2) \<Rightarrow>
               connectCanceled (connectFinished (s2\<lparr>m_future := Some f\<rparr>) f PipelineBranchFinished)
                 f PipelineBranchCanceled))"

definition cancelRunning :: "'p pipeline \<Rightarrow> 'p pipeline" where
  "cancelRunning s =
     (case m_future s of
        Some f \<Rightarrow> if f_running (futures s f) then future_cancel s f else s
      | None \<Rightarrow> s)"

definition executePipelineBranch ::
  "'p pipeline \<Rightarrow> nat \<Rightarrow> nat option \<Rightarrow> error + 'p pipeline" where
  "executePipelineBranch s dataSource start =
     (if m_paused s then Inr s
      else if ds_operators (dataSources s dataSource) = [] then Inr s
      else
        (case start of
           None \<Rightarrow>
             Inr (dispatch (cancelRunning s) dataSource None (ds_operators (dataSources s dataSource)))
         | Some st \<Rightarrow>
             (case (case findTransformedDataSource (cancelRunning s) dataSource of
                      Some t \<Rightarrow> (case copyData (cancelRunning s) t of (a, s1) \<Rightarrow> (Some a, s1))
                    | None \<Rightarrow> (None, cancelRunning s)) of
                (data, s1) \<Rightarrow>
                  (case scanCanceled (operators s1) (ds_operators (dataSources s1 dataSource)) st of
                     PastEnd \<Rightarrow> Inl IteratorPastEnd
                   | HaveCanceled c \<Rightarrow>
                       Inr (dispatch (resetState s1 c) dataSource data
                              (ds_operators (dataSources s dataSource)))
                   | ReachedStart \<Rightarrow>
                       Inr (dispatch (resetState s1 st) dataSource data
                              (mid_from (ds_operators (dataSources s dataSource))
                                 (indexOf (ds_operators (dataSources s dataSource)) st)))))))"

text \<open>The three overloads of \<open>Pipeline::execute\<close>. \<open>QList::last\<close> of an empty list is an
  error.\<close>

definition execute :: "'p pipeline \<Rightarrow> error + 'p pipeline" where
  "execute s = executePipelineBranch (emit s Started) (m_data s) None"

definition execute_start_last :: "'p pipeline \<Rightarrow> nat \<Rightarrow> bool \<Rightarrow> error + 'p pipeline" where
  "execute_start_last s start lst =
     (if lst then
        (if ds_operators (dataSources s start) = [] then Inl LastOfEmptyList
         else executePipelineBranch (emit s Started) start
                (Some (last (ds_operators (dataSources s start)))))
      else executePipelineBranch (emit s Started) start None)"

definition execute_start :: "'p pipeline \<Rightarrow> nat \<Rightarrow> error + 'p pipeline" where
  "execute_start s start = executePipelineBranch (emit s Started) start None"

text \<open>\<open>Pipeline::addDataSource\<close> connects the three handlers below to the signals of the
  data source.\<close>

definition addDataSource :: "'p pipeline \<Rightarrow> nat \<Rightarrow> 'p pipeline" where
  "addDataSource s d =
     s\<lparr>dataSources := (dataSources s)(d := (dataSources s d)\<lparr>ds_connected := True\<rparr>)\<rparr>"

text \<open>The constructor; \<open>m_paused\<close> and \<open>m_future\<close> keep the values the class declares.\<close>

definition Pipeline_new :: "'p pipeline \<Rightarrow> nat \<Rightarrow> 'p pipeline" where
  "Pipeline_new s dataSource = addDataSource (setParent (s\<lparr>m_data := dataSource\<rparr>) dataSource) dataSource"

text \<open>Lines 131-146 of \<open>pipelineBranchFinished\<close>: the child of the last operator that holds
  the transformed data, made when there is none. The result is the state and whether a child
  was made.\<close>

definition ensureChild :: "'p pipeline \<Rightarrow> nat \<Rightarrow> nat \<times> bool \<times> 'p pipeline" where
  "ensureChild s lastOp =
     (case childDataSource (operators s lastOp) of
        Some c \<Rightarrow> (c, False, s)
      | None \<Rightarrow>
          (case newDataSource s ''Output'' of
             (d, s1) \<Rightarrow> (d, True, setChildDataSource (addDataSource (setParent s1 d) d) lastOp (Some d))))"

definition storeResult :: "'p pipeline \<Rightarrow> nat \<Rightarrow> nat \<Rightarrow> 'p pipeline" where
  "storeResult s future lastOp =
     (if \<not> hasChildDataSource (operators s lastOp) then
        (case ensureChild s lastOp of
           (c, created, s1) \<Rightarrow>
             (let s2 = dataModified (setData s1 c (f_result (futures s1 future))) c
              in if created then emit s2 (NewChildDataSource lastOp c) else s2))
      else s)"

definition releaseFuture :: "'p pipeline \<Rightarrow> nat \<Rightarrow> 'p pipeline" where
  "releaseFuture s future =
     (let s1 = future_deleteLater s future
      in if m_future s1 = Some future then s1\<lparr>m_future := None\<rparr> else s1)"

definition pipelineBranchFinished :: "'p pipeline \<Rightarrow> nat \<Rightarrow> bool \<Rightarrow> error + 'p pipeline" where
  "pipelineBranchFinished s future result =
     (if result then
        (if f_operators (futures s future) = [] then Inl LastOfEmptyList
         else
           (let lastOp = last (f_operators (futures s future));
                s1 = storeResult s future lastOp
            in (case (case childDataSource (operators s1 lastOp) of
                        Some c \<Rightarrow> execute_start s1 c
                      | None \<Rightarrow> Inr (emit s1 Finished)) of
                  Inl e \<Rightarrow> Inl e
                | Inr s2 \<Rightarrow> Inr (releaseFuture s2 future))))
      else Inr (deleteObject s (f_result (futures s future))))"

definition pipelineBranchCanceled :: "'p pipeline \<Rightarrow> nat \<Rightarrow> 'p pipeline" where
  "pipelineBranchCanceled s future =
     releaseFuture (deleteObject s (f_result (futures s future))) future"

definition pause :: "'p pipeline \<Rightarrow> 'p pipeline" where
  "pause s = s\<lparr>m_paused := True\<rparr>"

definition resume :: "'p pipeline \<Rightarrow> bool \<Rightarrow> error + 'p pipeline" where
  "resume s run = (if run then execute (s\<lparr>m_paused := False\<rparr>) else Inr (s\<lparr>m_paused := False\<rparr>))"

text \<open>\<open>Pipeline::cancel\<close>; the callback is optional.\<close>

definition cancel :: "'p pipeline \<Rightarrow> nat option \<Rightarrow> 'p pipeline" where
  "cancel s canceled =
     (case m_future s of
        None \<Rightarrow> s
      | Some f \<Rightarrow>
          future_cancel
            (case canceled of None \<Rightarrow> s | Some cb \<Rightarrow> connectCanceled s f (Callback cb)) f)"

definition isRunning :: "'p pipeline \<Rightarrow> bool" where
  "isRunning s = (case m_future s of Some f \<Rightarrow> f_running (futures s f) | None \<Rightarrow> False)"

text \<open>The two handlers of \<open>DataSource::operatorAdded\<close>, in the order of their connection.\<close>

definition operatorAdded_execute :: "'p pipeline \<Rightarrow> nat \<Rightarrow> error + 'p pipeline" where
  "operatorAdded_execute s op = execute_start_last s (op_dataSource (operators s op)) True"

definition operatorAdded_move :: "'p pipeline \<Rightarrow> nat \<Rightarrow> 'p pipeline" where
  "operatorAdded_move s op =
     (let s1 = connectTransformModified s op
      in if length (ds_operators (dataSources s1 (op_dataSource (operators s1 op)))) > 1 then
           (case findTransformedDataSourceOperator s1 (op_dataSource (operators s1 op)) of
              Some t \<Rightarrow>
                (let transformedDataSource = childDataSource (operators s1 t)
                 in singleShot
                      (setChildDataSource (setChildDataSource s1 t None) op transformedDataSource)
                      (DataSourceMoved op transformedDataSource))
            | None \<Rightarrow> s1)
         else s1)"

definition operatorAdded :: "'p pipeline \<Rightarrow> nat \<Rightarrow> error + 'p pipeline" where
  "operatorAdded s op =
     (case operatorAdded_execute s op of
        Inl e \<Rightarrow> Inl e
      | Inr s1 \<Rightarrow> Inr (operatorAdded_move s1 op))"

text \<open>The handler of \<open>DataSource::operatorRemoved\<close>; \<open>ok\<close> is the answer of
  \<open>m_future->cancel(op)\<close>.\<close>

definition operatorRemoved_move :: "'p pipeline \<Rightarrow> nat \<Rightarrow> 'p pipeline" where
  "operatorRemoved_move s op =
     (if \<not> hasChildDataSource (operators s op) then
        (case childDataSource (operators s op) of
           None \<Rightarrow> s
         | Some transformedDataSource \<Rightarrow>
             (if ds_operators (dataSources s (op_dataSource (operators s op))) \<noteq> [] then
                (let newOp = last (ds_operators (dataSources s (op_dataSource (operators s op))))
                 in emit (setChildDataSource (setChildDataSource s op None) newOp
                            (Some transformedDataSource))
                      (DataSourceMoved newOp (Some transformedDataSource)))
              else dataSource_deleteLater (removeAllOperators s transformedDataSource)
                     transformedDataSource))
      else s)"

definition operatorRemoved :: "'p pipeline \<Rightarrow> nat \<Rightarrow> bool \<Rightarrow> error + 'p pipeline" where
  "operatorRemoved s op ok =
     (let s1 = operatorRemoved_move s op
      in (case m_future s1 of
            None \<Rightarrow> execute_start s1 (op_dataSource (operators s1 op))
          | Some f \<Rightarrow>
              if f_running (futures s1 f) then
                (case future_cancel_from s1 f op ok of
                   (r, s2) \<Rightarrow>
                     if \<not> r then execute_start s2 (op_dataSource (operators s2 op)) else Inr s2)
              else execute_start s1 (op_dataSource (operators s1 op))))"

text \<open>The constructor of \<open>ImageFuture\<close> and \<open>Pipeline::getCopyOfImagePriorTo\<close>.\<close>

definition newImageFuture ::
  "'p pipeline \<Rightarrow> nat \<Rightarrow> nat \<Rightarrow> nat option \<Rightarrow> nat \<times> 'p pipeline" where
  "newImageFuture s op imageData future =
     (let i = nextImageFuture s;
          s1 = s\<lparr>imageFutures := (imageFutures s)(i :=
                   \<lparr>img_operator = op, img_imageData = imageData, img_future = future\<rparr>),
                 nextImageFuture := Suc i\<rparr>
      in (i, (case future of
                Some f \<Rightarrow> connectCanceled (connectFinished s1 f (ImageFutureFinished i)) f
                            (ImageFutureCanceled i)
              | None \<Rightarrow> s1)))"

definition getCopyOfImagePriorTo :: "'p pipeline \<Rightarrow> nat \<Rightarrow> nat \<times> 'p pipeline" where
  "getCopyOfImagePriorTo s op =
     (case copyData s (m_data s) of
        (result, s1) \<Rightarrow>
          (if length (ds_operators (dataSources s1 (m_data s1))) > 1
              \<and> indexOf (ds_operators (dataSources s1 (m_data s1))) op > 0 then
             (case worker_run s1 result
                     (mid (ds_operators (dataSources s1 (m_data s1))) 0
                        (indexOf (ds_operators (dataSources s1 (m_data s1))) op)) of
                (future, s2) \<Rightarrow> newImageFuture s2 op result (Some future))
           else
             (case newImageFuture s1 op result None of
                (i, s2) \<Rightarrow> (i, singleShot s2 (ImageFinished i True)))))"

subsection \<open>Predicates of the claims\<close>

text \<open>An Execution Handle is active when the pipeline listens to it, it runs and nobody
  asked it to stop. The pipeline knows at most one such handle, the one in \<open>m_future\<close>.\<close>

definition isActive :: "'p pipeline \<Rightarrow> nat \<Rightarrow> bool" where
  "isActive s f =
     (PipelineBranchFinished \<in> set (f_finishedSlots (futures s f))
      \<and> f_running (futures s f) \<and> \<not> f_cancelRequested (futures s f))"

definition atMostOneActive :: "'p pipeline \<Rightarrow> bool" where
  "atMostOneActive s =
     list_all (\<lambda>f. isActive s f \<longrightarrow> m_future s = Some f) [0..<nextFuture s]"

text \<open>The resume point handed to \<open>executePipelineBranch\<close> is an operator of the branch.\<close>

definition startInBranch :: "'p pipeline \<Rightarrow> nat \<Rightarrow> nat option \<Rightarrow> bool" where
  "startInBranch s d start =
     (case start of None \<Rightarrow> True | Some st \<Rightarrow> st \<in> set (ds_operators (dataSources s d)))"

text \<open>The content of the data object a data source holds.\<close>

definition storedPayload :: "'p pipeline \<Rightarrow> nat \<Rightarrow> 'p option" where
  "storedPayload s d = (case ds_data (dataSources s d) of None \<Rightarrow> None | Some a \<Rightarrow> heap s a)"

text \<open>Modelled from the spec: the worker brings a handle to a terminal state before it
  emits \<open>finished\<close> or \<open>canceled\<close> (PipelineWorker is not part of the sources).\<close>

definition futureStopped :: "'p pipeline \<Rightarrow> nat \<Rightarrow> 'p pipeline" where
  "futureStopped s f = s\<lparr>futures := (futures s)(f := (futures s f)\<lparr>f_running := False\<rparr>)\<rparr>"

text \<open>What \<open>executePipelineBranch\<close> asks of the handle in \<open>m_future\<close> when it
  still runs, and what the handler of \<open>operatorRemoved\<close> asks of it.\<close>

definition cancelEvents :: "'p pipeline \<Rightarrow> event list" where
  "cancelEvents s =
     (case m_future s of
        Some f \<Rightarrow> if f_running (futures s f) then [FutureCancel f] else []
      | None \<Rightarrow> [])"

definition cancelFromEvents :: "'p pipeline \<Rightarrow> nat \<Rightarrow> event list" where
  "cancelFromEvents s op =
     (case m_future s of
        Some f \<Rightarrow> if f_running (futures s f) then [FutureCancelFrom f op] else []
      | None \<Rightarrow> [])"

text \<open>Calls of \<open>DataSource::setData\<close> in the trace.\<close>

fun isSetData :: "event \<Rightarrow> bool" where
  "isSetData (SetData d a) = True"
| "isSetData e = False"

text \<open>The data object of every data source made so far has been allocated.\<close>

definition dataAllocated :: "'p pipeline \<Rightarrow> bool" where
  "dataAllocated s =
     list_all (\<lambda>d. case ds_data (dataSources s d) of None \<Rightarrow> True | Some a \<Rightarrow> a < nextObject s)
       [0..<nextDataSource s]"


text \<open>The data object of every handle dispatched so far has been allocated.\<close>

definition resultsAllocated :: "'p pipeline \<Rightarrow> bool" where
  "resultsAllocated s =
     list_all (\<lambda>f. f_result (futures s f) < nextObject s) [0..<nextFuture s]"

subsection \<open>Example pipelines\<close>

definition blankOperator :: operator where
  "blankOperator = \<lparr>op_dataSource = 0, op_state = StepPending, hasChildDataSource = False,
     childDataSource = None, transformModifiedConnected = False\<rparr>"

definition blankDataSource :: dataSource where
  "blankDataSource = \<lparr>ds_label = [], ds_operators = [], ds_data = None, ds_parent = NoParent,
     ds_connected = False, ds_deleteLater = False\<rparr>"

definition blankFuture :: future where
  "blankFuture = \<lparr>f_operators = [], f_result = 0, f_running = False, f_cancelRequested = False,
     f_finishedSlots = [], f_canceledSlots = [], f_deleteLater = False\<rparr>"

definition blankImageFuture :: imageFuture where
  "blankImageFuture = \<lparr>img_operator = 0, img_imageData = 0, img_future = None\<rparr>"

definition blank :: "nat pipeline" where
  "blank = \<lparr>dataSources = (\<lambda>_. blankDataSource), operators = (\<lambda>_. blankOperator),
     futures = (\<lambda>_. blankFuture), imageFutures = (\<lambda>_. blankImageFuture), heap = (\<lambda>_. None),
     nextDataSource = 0, nextFuture = 0, nextImageFuture = 0, nextObject = 0,
     m_data = 0, m_paused = False, m_future = None, trace = [], deferred = []\<rparr>"

text \<open>The root data source 0 holds the data object 0 (content 100) and the operators 1, 2.\<close>

definition twoSteps :: "nat pipeline" where
  "twoSteps = blank\<lparr>dataSources := (dataSources blank)(0 :=
       blankDataSource\<lparr>ds_operators := [1, 2], ds_data := Some 0, ds_parent := PipelineParent,
         ds_connected := True\<rparr>),
     heap := (heap blank)(0 := Some 100), nextDataSource := 1, nextObject := 1\<rparr>"

text \<open>\<open>twoSteps\<close> after \<open>execute\<close>: the handle 0 runs the operators 1, 2 on the copy 1.\<close>

definition afterRun :: "nat pipeline" where
  "afterRun = twoSteps\<lparr>futures := (futures twoSteps)(0 :=
       \<lparr>f_operators = [1, 2], f_result = 1, f_running = True, f_cancelRequested = False,
        f_finishedSlots = [PipelineBranchFinished], f_canceledSlots = [PipelineBranchCanceled],
        f_deleteLater = False\<rparr>),
     heap := (heap twoSteps)(1 := Some 100), nextFuture := 1, nextObject := 2,
     m_future := Some 0, trace := [Started, WorkerRun 0 1 [1, 2]]\<rparr>"

text \<open>Operator 1 was canceled after an earlier run had left its output (content 111) in
  the child data source 1; operator 2 has just been added.\<close>

definition canceledWithChild :: "nat pipeline" where
  "canceledWithChild = twoSteps\<lparr>
     dataSources := (dataSources twoSteps)(1 :=
       \<lparr>ds_label = ''Output'', ds_operators = [], ds_data = Some 1, ds_parent = PipelineParent,
        ds_connected = True, ds_deleteLater = False\<rparr>),
     operators := (operators twoSteps)(1 :=
       blankOperator\<lparr>op_state := StepCanceled, childDataSource := Some 1\<rparr>),
     heap := (heap twoSteps)(1 := Some 111), nextDataSource := 2, nextObject := 2\<rparr>"

text \<open>The root as in \<open>twoSteps\<close>; its operator 2 owns the data source 1 (content 111),
  which has the operators 3 and 4.\<close>

definition twoBranches :: "nat pipeline" where
  "twoBranches = twoSteps\<lparr>
     dataSources := (dataSources twoSteps)(1 :=
       \<lparr>ds_label = ''Output'', ds_operators = [3, 4], ds_data = Some 1, ds_parent = PipelineParent,
        ds_connected = True, ds_deleteLater = False\<rparr>),
     operators := (operators twoSteps)
       (2 := blankOperator\<lparr>childDataSource := Some 1\<rparr>,
        3 := blankOperator\<lparr>op_dataSource := 1\<rparr>,
        4 := blankOperator\<lparr>op_dataSource := 1\<rparr>),
     heap := (heap twoSteps)(1 := Some 111), nextDataSource := 2, nextObject := 2\<rparr>"

text \<open>The first operator ran and left its output (content 111) in the child data source 1;
  operator 2 has just been added to the root.\<close>

definition stepAdded :: "nat pipeline" where
  "stepAdded = twoSteps\<lparr>
     dataSources := (dataSources twoSteps)(1 :=
       \<lparr>ds_label = ''Output'', ds_operators = [], ds_data = Some 1, ds_parent = PipelineParent,
        ds_connected = True, ds_deleteLater = False\<rparr>),
     operators := (operators twoSteps)(1 :=
       blankOperator\<lparr>op_state := StepFinished, childDataSource := Some 1\<rparr>),
     heap := (heap twoSteps)(1 := Some 111), nextDataSource := 2, nextObject := 2\<rparr>"

text \<open>Operator 2, which owned the child data source 1, has just been removed from the root;
  operator 1 remains.\<close>

definition stepRemoved :: "nat pipeline" where
  "stepRemoved = blank\<lparr>
     dataSources := (dataSources blank)
       (0 := blankDataSource\<lparr>ds_operators := [1], ds_data := Some 0, ds_parent := PipelineParent,
               ds_connected := True\<rparr>,
        1 := \<lparr>ds_label = ''Output'', ds_operators = [], ds_data = Some 1,
               ds_parent = PipelineParent, ds_connected = True, ds_deleteLater = False\<rparr>),
     operators := (operators blank)(1 := blankOperator\<lparr>op_state := StepFinished\<rparr>,
       2 := blankOperator\<lparr>op_state := StepFinished, childDataSource := Some 1\<rparr>),
     heap := (heap blank)(0 := Some 100, 1 := Some 111), nextDataSource := 2, nextObject := 2\<rparr>"

section \<open>Properties\<close>

lemmas prim_defs = emit_def singleShot_def copyData_def setData_def dataModified_def
  removeAllOperators_def dataSource_deleteLater_def newDataSource_def setParent_def
  isCanceled_def resetState_def setChildDataSource_def connectTransformModified_def
  worker_run_def future_cancel_def future_cancel_from_def future_deleteLater_def
  connectFinished_def connectCanceled_def deleteObject_def addDataSource_def

lemmas ex_defs = blankOperator_def blankDataSource_def blankFuture_def blankImageFuture_def
  blank_def twoSteps_def

subsection \<open>Lists\<close>

lemma indexOf_nonneg_iff: "0 \<le> indexOf xs x \<longleftrightarrow> x \<in> set xs"
  by (induction xs) (auto simp: Let_def)

lemma indexOf_less: "x \<in> set xs \<Longrightarrow> nat (indexOf xs x) < length xs"
  by (induction xs) (auto simp: Let_def indexOf_nonneg_iff nat_add_distrib)

lemma mid_from_indexOf_nonempty: "x \<in> set xs \<Longrightarrow> mid_from xs (indexOf xs x) \<noteq> []"
  using indexOf_less[of x xs] by (simp add: mid_from_def)

lemma scanCanceled_in: "st \<in> set xs \<Longrightarrow> scanCanceled ops xs st \<noteq> PastEnd"
  by (induction xs) auto

lemma indexOf_notin: "x \<notin> set xs \<Longrightarrow> indexOf xs x = - 1"
  by (induction xs) (auto simp: Let_def)

lemma indexOf_append: "x \<notin> set pre \<Longrightarrow> indexOf (pre @ x # post) x = int (length pre)"
  by (induction pre) (auto simp: Let_def)


subsection \<open>Dispatching a run\<close>

lemma execute_start_total: "\<exists>s'. execute_start s d = Inr s'"
  by (simp add: execute_start_def executePipelineBranch_def)

lemma afterRun_reached: "execute twoSteps = Inr afterRun"
  by (simp add: execute_def executePipelineBranch_def dispatch_def cancelRunning_def
      prim_defs ex_defs afterRun_def)

lemma trace_dispatch:
  "trace (dispatch s d data ops) =
     trace s @ [WorkerRun (nextFuture s) (case data of Some a \<Rightarrow> a | None \<Rightarrow> nextObject s) ops]"
  by (simp add: dispatch_def prim_defs split: option.splits)

lemma m_future_dispatch: "m_future (dispatch s d data ops) = Some (nextFuture s)"
  by (simp add: dispatch_def prim_defs split: option.splits)

lemma nextFuture_dispatch: "nextFuture (dispatch s d data ops) = Suc (nextFuture s)"
  by (simp add: dispatch_def prim_defs split: option.splits)

lemma futures_dispatch:
  "futures (dispatch s d data ops) =
     (futures s)(nextFuture s :=
        \<lparr>f_operators = ops, f_result = (case data of Some a \<Rightarrow> a | None \<Rightarrow> nextObject s),
         f_running = True, f_cancelRequested = False,
         f_finishedSlots = [PipelineBranchFinished], f_canceledSlots = [PipelineBranchCanceled],
         f_deleteLater = False\<rparr>)"
  by (simp add: dispatch_def prim_defs split: option.splits)

text \<open>Outside the gate and with a resume point of the branch, \<open>executePipelineBranch\<close>
  returns, and what it returns is a dispatch of a non-empty operator list.\<close>

lemma executePipelineBranch_shape:
  assumes np: "\<not> m_paused s" and ne: "ds_operators (dataSources s d) \<noteq> []"
      and st: "startInBranch s d start"
  shows "\<exists>s3 data ops. executePipelineBranch s d start = Inr (dispatch s3 d data ops)
           \<and> ops \<noteq> []
           \<and> trace s3 = trace (cancelRunning s) \<and> futures s3 = futures (cancelRunning s)
           \<and> nextFuture s3 = nextFuture (cancelRunning s)"
proof (cases start)
  case None
  with np ne show ?thesis
    by (auto simp: executePipelineBranch_def)
next
  case (Some x)
  then have x: "x \<in> set (ds_operators (dataSources s d))"
    using st by (simp add: startInBranch_def)
  let ?c = "cancelRunning s"
  have dsc: "dataSources ?c = dataSources s" and opc: "operators ?c = operators s"
    by (simp_all add: cancelRunning_def future_cancel_def split: option.splits)
  obtain data s1 where p: "(case findTransformedDataSource ?c d of
                      Some t \<Rightarrow> (case copyData ?c t of (a, s1) \<Rightarrow> (Some a, s1))
                    | None \<Rightarrow> (None, ?c)) = (data, s1)"
    by (cases "(case findTransformedDataSource ?c d of
                      Some t \<Rightarrow> (case copyData ?c t of (a, s1) \<Rightarrow> (Some a, s1))
                    | None \<Rightarrow> (None, ?c))") blast
  have s1: "trace s1 = trace ?c" "futures s1 = futures ?c" "nextFuture s1 = nextFuture ?c"
    "dataSources s1 = dataSources s" "operators s1 = operators s"
    using p dsc opc by (auto simp: copyData_def split: option.splits)
  have scan: "scanCanceled (operators s1) (ds_operators (dataSources s1 d)) x \<noteq> PastEnd"
    using x by (simp add: s1 scanCanceled_in)
  show ?thesis
  proof (cases "scanCanceled (operators s1) (ds_operators (dataSources s1 d)) x")
    case PastEnd
    with scan show ?thesis by simp
  next
    case (HaveCanceled c)
    have "executePipelineBranch s d start =
        Inr (dispatch (resetState s1 c) d data (ds_operators (dataSources s d)))"
      using np ne Some p HaveCanceled by (simp add: executePipelineBranch_def)
    moreover have "trace (resetState s1 c) = trace ?c" "futures (resetState s1 c) = futures ?c"
      "nextFuture (resetState s1 c) = nextFuture ?c"
      by (simp_all add: resetState_def s1)
    ultimately show ?thesis using ne by blast
  next
    case ReachedStart
    have "executePipelineBranch s d start = Inr (dispatch (resetState s1 x) d data
        (mid_from (ds_operators (dataSources s d)) (indexOf (ds_operators (dataSources s d)) x)))"
      using np ne Some p ReachedStart by (simp add: executePipelineBranch_def)
    moreover have "trace (resetState s1 x) = trace ?c" "futures (resetState s1 x) = futures ?c"
      "nextFuture (resetState s1 x) = nextFuture ?c"
      by (simp_all add: resetState_def s1)
    ultimately show ?thesis using mid_from_indexOf_nonempty[OF x] by blast
  qed
qed

subsection \<open>At most one active handle\<close>

lemma atMostOneActive_iff:
  "atMostOneActive s \<longleftrightarrow> (\<forall>f < nextFuture s. isActive s f \<longrightarrow> m_future s = Some f)"
  by (auto simp: atMostOneActive_def list_all_iff)

lemma isActive_cong: "futures s = futures t \<Longrightarrow> isActive s f = isActive t f"
  by (simp add: isActive_def)

lemma atMostOneActive_dispatch:
  assumes "\<forall>f < nextFuture s. \<not> isActive s f"
  shows "atMostOneActive (dispatch s d data ops)"
  using assms
  by (auto simp: atMostOneActive_iff isActive_def m_future_dispatch nextFuture_dispatch
      futures_dispatch less_Suc_eq)

lemma cancelRunning_none_active:
  assumes "atMostOneActive s"
  shows "\<forall>f < nextFuture (cancelRunning s). \<not> isActive (cancelRunning s) f"
  using assms
  by (auto simp: atMostOneActive_iff isActive_def cancelRunning_def future_cancel_def
      split: option.splits)

subsection \<open>Executing a branch\<close>

lemma scanCanceled_append:
  "op \<notin> set pre \<Longrightarrow>
   scanCanceled ops (pre @ [op]) op =
     (case find (\<lambda>x. op_state (ops x) = StepCanceled) pre of
        Some c \<Rightarrow> HaveCanceled c | None \<Rightarrow> ReachedStart)"
  by (induction pre) auto

lemma find_None_iff_all: "find P xs = None \<longleftrightarrow> (\<forall>x\<in>set xs. \<not> P x)"
  by (induction xs) auto

lemma mid_from_append: "op \<notin> set pre \<Longrightarrow> mid_from (pre @ [op]) (indexOf (pre @ [op]) op) = [op]"
  by (simp add: indexOf_append mid_from_def)

lemma cancelRunning_fields:
  "dataSources (cancelRunning s) = dataSources s"
  "operators (cancelRunning s) = operators s"
  "heap (cancelRunning s) = heap s"
  "nextObject (cancelRunning s) = nextObject s"
  "nextFuture (cancelRunning s) = nextFuture s"
  "nextDataSource (cancelRunning s) = nextDataSource s"
  "deferred (cancelRunning s) = deferred s"
  "m_paused (cancelRunning s) = m_paused s"
  "trace (cancelRunning s) =
     trace s @ (case m_future s of
                  Some f \<Rightarrow> if f_running (futures s f) then [FutureCancel f] else []
                | None \<Rightarrow> [])"
  by (simp_all add: cancelRunning_def future_cancel_def split: option.splits)

lemma dispatch_fields:
  "dataSources (dispatch s d data ops) = dataSources s"
  "operators (dispatch s d data ops) = operators s"
  "deferred (dispatch s d data ops) = deferred s"
  "m_paused (dispatch s d data ops) = m_paused s"
  "nextDataSource (dispatch s d data ops) = nextDataSource s"
  by (simp_all add: dispatch_def prim_defs split: option.splits)

lemma heap_dispatch_None:
  "heap (dispatch s d None ops) = (heap s)(nextObject s := storedPayload s d)"
  by (simp add: dispatch_def prim_defs storedPayload_def)

lemma heap_dispatch_Some: "heap (dispatch s d (Some a) ops) = heap s"
  by (simp add: dispatch_def prim_defs)

lemma findTransformedDataSourceOperator_cong:
  assumes "dataSources a = dataSources b"
      and "\<And>q. hasChildDataSource (operators a q) = hasChildDataSource (operators b q)"
      and "\<And>q. childDataSource (operators a q) = childDataSource (operators b q)"
  shows "findTransformedDataSourceOperator a d = findTransformedDataSourceOperator b d"
  using assms by (simp add: findTransformedDataSourceOperator_def)

lemma find_Some_in: "find P xs = Some x \<Longrightarrow> x \<in> set xs \<and> P x"
  by (induction xs) (auto split: if_splits)

lemma findTransformedDataSourceOperator_Some:
  "findTransformedDataSourceOperator s d = Some t \<Longrightarrow>
     t \<in> set (ds_operators (dataSources s d)) \<and> \<not> hasChildDataSource (operators s t)
     \<and> childDataSource (operators s t) \<noteq> None"
  using find_Some_in[of _ "rev (ds_operators (dataSources s d))" t]
  by (auto simp: findTransformedDataSourceOperator_def)

lemma execute_start_run:
  assumes "\<not> m_paused s" "ds_operators (dataSources s d) \<noteq> []"
  shows "execute_start s d =
           Inr (dispatch (cancelRunning (emit s Started)) d None (ds_operators (dataSources s d)))"
  using assms by (simp add: execute_start_def executePipelineBranch_def emit_def)

lemma execute_start_gate:
  assumes "m_paused s \<or> ds_operators (dataSources s d) = []"
  shows "execute_start s d = Inr (emit s Started)"
  using assms by (auto simp add: execute_start_def executePipelineBranch_def emit_def)

lemma execute_start_last_run:
  assumes np: "\<not> m_paused s" and ops: "ds_operators (dataSources s d) = pre @ [op]"
      and new: "op \<notin> set pre"
  shows "\<exists>s3. execute_start_last s d True =
           Inr (dispatch s3 d
                  (case findTransformedDataSource s d of Some t \<Rightarrow> Some (nextObject s) | None \<Rightarrow> None)
                  (if \<exists>c\<in>set pre. isCanceled s c then pre @ [op] else [op]))
         \<and> trace s3 = trace (cancelRunning (emit s Started))
         \<and> nextFuture s3 = nextFuture s
         \<and> dataSources s3 = dataSources s
         \<and> deferred s3 = deferred s
         \<and> (\<forall>q. hasChildDataSource (operators s3 q) = hasChildDataSource (operators s q)
                \<and> childDataSource (operators s3 q) = childDataSource (operators s q)
                \<and> op_dataSource (operators s3 q) = op_dataSource (operators s q))
         \<and> (case findTransformedDataSource s d of
               Some t \<Rightarrow> heap s3 = (heap s)(nextObject s := storedPayload s t)
                         \<and> nextObject s3 = Suc (nextObject s)
             | None \<Rightarrow> heap s3 = heap s \<and> nextObject s3 = nextObject s)"
proof -
  let ?e = "emit s Started"
  let ?c = "cancelRunning ?e"
  have e: "dataSources ?e = dataSources s" "operators ?e = operators s" "heap ?e = heap s"
    "nextObject ?e = nextObject s" "nextFuture ?e = nextFuture s" "deferred ?e = deferred s"
    "m_paused ?e = m_paused s"
    by (simp_all add: emit_def)
  have ft: "findTransformedDataSource ?c d = findTransformedDataSource s d"
    by (simp add: findTransformedDataSource_def findTransformedDataSourceOperator_def
        cancelRunning_fields e cong: option.case_cong)
  have lst: "last (ds_operators (dataSources s d)) = op" "ds_operators (dataSources s d) \<noteq> []"
    by (simp_all add: ops)
  obtain data s1 where p: "(case findTransformedDataSource ?c d of
                      Some t \<Rightarrow> (case copyData ?c t of (a, s1) \<Rightarrow> (Some a, s1))
                    | None \<Rightarrow> (None, ?c)) = (data, s1)"
    by (cases "(case findTransformedDataSource ?c d of
                      Some t \<Rightarrow> (case copyData ?c t of (a, s1) \<Rightarrow> (Some a, s1))
                    | None \<Rightarrow> (None, ?c))") blast
  have data: "data = (case findTransformedDataSource s d of Some t \<Rightarrow> Some (nextObject s) | None \<Rightarrow> None)"
    using p by (auto simp: ft copyData_def cancelRunning_fields e split: option.splits)
  have s1: "trace s1 = trace ?c" "nextFuture s1 = nextFuture s" "dataSources s1 = dataSources s"
    "operators s1 = operators s" "deferred s1 = deferred s"
    using p by (auto simp: ft copyData_def cancelRunning_fields e split: option.splits)
  have hp: "(case findTransformedDataSource s d of
               Some t \<Rightarrow> heap s1 = (heap s)(nextObject s := storedPayload s t)
                         \<and> nextObject s1 = Suc (nextObject s)
             | None \<Rightarrow> heap s1 = heap s \<and> nextObject s1 = nextObject s)"
    using p by (auto simp: ft copyData_def cancelRunning_fields e storedPayload_def split: option.splits)
  have scan: "scanCanceled (operators s1) (ds_operators (dataSources s1 d)) op =
     (case find (\<lambda>x. op_state (operators s x) = StepCanceled) pre of
        Some c \<Rightarrow> HaveCanceled c | None \<Rightarrow> ReachedStart)"
    by (simp add: s1 ops scanCanceled_append[OF new])
  have rs: "\<And>x. trace (resetState s1 x) = trace ?c \<and> nextFuture (resetState s1 x) = nextFuture s
      \<and> dataSources (resetState s1 x) = dataSources s \<and> deferred (resetState s1 x) = deferred s
      \<and> heap (resetState s1 x) = heap s1 \<and> nextObject (resetState s1 x) = nextObject s1
      \<and> (\<forall>q. hasChildDataSource (operators (resetState s1 x) q) = hasChildDataSource (operators s q)
                \<and> childDataSource (operators (resetState s1 x) q) = childDataSource (operators s q)
                \<and> op_dataSource (operators (resetState s1 x) q) = op_dataSource (operators s q))"
    by (simp add: resetState_def s1)
  have unfold: "execute_start_last s d True =
      (case scanCanceled (operators s1) (ds_operators (dataSources s1 d)) op of
         PastEnd \<Rightarrow> Inl IteratorPastEnd
       | HaveCanceled c \<Rightarrow> Inr (dispatch (resetState s1 c) d data (pre @ [op]))
       | ReachedStart \<Rightarrow> Inr (dispatch (resetState s1 op) d data
                              (mid_from (pre @ [op]) (indexOf (pre @ [op]) op))))"
    using np lst p
    by (simp add: execute_start_last_def executePipelineBranch_def e ops split: scan.splits)
  show ?thesis
  proof (cases "find (\<lambda>x. op_state (operators s x) = StepCanceled) pre")
    case None
    then have nc: "\<not> (\<exists>c\<in>set pre. isCanceled s c)"
      by (simp add: find_None_iff_all isCanceled_def)
    have "execute_start_last s d True = Inr (dispatch (resetState s1 op) d data [op])"
      by (simp add: unfold scan None mid_from_append[OF new])
    with nc rs[of op] hp show ?thesis
      by (intro exI[where x="resetState s1 op"]) (simp add: data split: option.splits)
  next
    case (Some c)
    then have hc: "\<exists>c\<in>set pre. isCanceled s c"
      using find_Some_in[OF Some] by (auto simp: isCanceled_def)
    have "execute_start_last s d True = Inr (dispatch (resetState s1 c) d data (pre @ [op]))"
      by (simp add: unfold scan Some)
    with hc rs[of c] hp show ?thesis
      by (intro exI[where x="resetState s1 c"]) (simp add: data split: option.splits)
  qed
qed

subsection \<open>The handlers of the structural edits\<close>

lemma operatorAdded_move_effect:
  assumes ds: "dataSources s1 = dataSources s"
      and fr: "\<forall>q. hasChildDataSource (operators s1 q) = hasChildDataSource (operators s q)
                \<and> childDataSource (operators s1 q) = childDataSource (operators s q)
                \<and> op_dataSource (operators s1 q) = op_dataSource (operators s q)"
      and d: "op_dataSource (operators s op) = d"
      and ops: "ds_operators (dataSources s d) = pre @ [op]"
  shows "trace (operatorAdded_move s1 op) = trace s1
       \<and> (case (if pre = [] then None else findTransformedDataSourceOperator s d) of
             None \<Rightarrow> deferred (operatorAdded_move s1 op) = deferred s1
                    \<and> (\<forall>q. childDataSource (operators (operatorAdded_move s1 op) q)
                              = childDataSource (operators s q))
           | Some t \<Rightarrow>
               deferred (operatorAdded_move s1 op)
                 = deferred s1 @ [DataSourceMoved op (childDataSource (operators s t))]
               \<and> childDataSource (operators s t) \<noteq> None
               \<and> (\<forall>q. childDataSource (operators (operatorAdded_move s1 op) q)
                         = (if q = op then childDataSource (operators s t)
                            else if q = t then None
                            else childDataSource (operators s q))))"
proof -
  let ?c = "connectTransformModified s1 op"
  have c: "dataSources ?c = dataSources s" "op_dataSource (operators ?c op) = d"
    "trace ?c = trace s1" "deferred ?c = deferred s1"
    using ds fr d by (simp_all add: connectTransformModified_def)
  have cc: "\<And>q x. childDataSource (operators (connectTransformModified s1 x) q)
                  = childDataSource (operators s q)"
    using fr by (simp add: connectTransformModified_def)
  have f: "findTransformedDataSourceOperator ?c d = findTransformedDataSourceOperator s d"
    using ds fr
    by (intro findTransformedDataSourceOperator_cong) (simp_all add: connectTransformModified_def)
  have len: "(1 < length (ds_operators (dataSources ?c (op_dataSource (operators ?c op))))) = (pre \<noteq> [])"
    by (simp add: c ops)
  show ?thesis
  proof (cases "pre = []")
    case True
    then have "operatorAdded_move s1 op = ?c"
      using len by (simp add: operatorAdded_move_def Let_def)
    with True show ?thesis by (simp add: c cc)
  next
    case False
    show ?thesis
    proof (cases "findTransformedDataSourceOperator s d")
      case None
      then have "operatorAdded_move s1 op = ?c"
        using len f c(2) by (simp add: operatorAdded_move_def Let_def)
      with False None show ?thesis by (simp add: c cc)
    next
      case (Some t)
      then have m: "operatorAdded_move s1 op =
          singleShot (setChildDataSource (setChildDataSource ?c t None) op
                        (childDataSource (operators s t)))
            (DataSourceMoved op (childDataSource (operators s t)))"
        using len f c(2) cc False by (simp add: operatorAdded_move_def Let_def)
      have "childDataSource (operators s t) \<noteq> None"
        using findTransformedDataSourceOperator_Some[OF Some] by simp
      with False Some show ?thesis
        unfolding m by (simp add: singleShot_def setChildDataSource_def c cc)
    qed
  qed
qed

lemma operatorRemoved_move_effect:
  assumes d: "op_dataSource (operators s op) = d"
      and gone: "op \<notin> set (ds_operators (dataSources s d))"
  shows "(if \<not> hasChildDataSource (operators s op) \<and> childDataSource (operators s op) \<noteq> None then
            (if ds_operators (dataSources s d) \<noteq> [] then
               operatorRemoved_move s op =
                 s\<lparr>operators := (operators s)
                      (op := (operators s op)\<lparr>childDataSource := None\<rparr>,
                       last (ds_operators (dataSources s d)) :=
                         (operators s (last (ds_operators (dataSources s d))))
                           \<lparr>childDataSource := childDataSource (operators s op)\<rparr>),
                    trace := trace s @ [DataSourceMoved (last (ds_operators (dataSources s d)))
                                          (childDataSource (operators s op))]\<rparr>
             else
               (\<exists>c. childDataSource (operators s op) = Some c
                  \<and> operatorRemoved_move s op =
                      s\<lparr>dataSources := (dataSources s)
                           (c := (dataSources s c)\<lparr>ds_operators := [], ds_deleteLater := True\<rparr>)\<rparr>))
          else operatorRemoved_move s op = s)"
proof (cases "\<not> hasChildDataSource (operators s op) \<and> childDataSource (operators s op) \<noteq> None")
  case False
  then show ?thesis
    by (auto simp: operatorRemoved_move_def)
next
  case True
  then obtain c where c: "childDataSource (operators s op) = Some c" by auto
  show ?thesis
  proof (cases "ds_operators (dataSources s d) = []")
    case True
    with \<open>\<not> hasChildDataSource (operators s op) \<and> childDataSource (operators s op) \<noteq> None\<close> c d
    show ?thesis
      by (simp add: operatorRemoved_move_def removeAllOperators_def dataSource_deleteLater_def)
  next
    case False
    then have "last (ds_operators (dataSources s d)) \<in> set (ds_operators (dataSources s d))"
      by simp
    with gone have ne: "last (ds_operators (dataSources s d)) \<noteq> op" by auto
    from False \<open>\<not> hasChildDataSource (operators s op) \<and> childDataSource (operators s op) \<noteq> None\<close> c d ne
    show ?thesis
      by (simp add: operatorRemoved_move_def Let_def setChildDataSource_def emit_def)
  qed
qed

lemma operatorRemoved_move_frame:
  "m_paused (operatorRemoved_move s op) = m_paused s"
  "m_future (operatorRemoved_move s op) = m_future s"
  "futures (operatorRemoved_move s op) = futures s"
  "heap (operatorRemoved_move s op) = heap s"
  "nextObject (operatorRemoved_move s op) = nextObject s"
  "nextFuture (operatorRemoved_move s op) = nextFuture s"
  "op_dataSource (operators (operatorRemoved_move s op) q) = op_dataSource (operators s q)"
  "ds_data (dataSources (operatorRemoved_move s op) x) = ds_data (dataSources s x)"
  by (simp_all add: operatorRemoved_move_def Let_def setChildDataSource_def emit_def
      removeAllOperators_def dataSource_deleteLater_def split: option.splits)

lemma operatorRemoved_move_operators:
  "ds_operators (dataSources (operatorRemoved_move s op) (op_dataSource (operators s op)))
     = ds_operators (dataSources s (op_dataSource (operators s op)))"
  by (simp add: operatorRemoved_move_def Let_def setChildDataSource_def emit_def
      removeAllOperators_def dataSource_deleteLater_def split: option.splits)

lemma storedPayload_cong:
  "dataSources a = dataSources b \<Longrightarrow> heap a = heap b \<Longrightarrow> storedPayload a d = storedPayload b d"
  by (simp add: storedPayload_def cong: option.case_cong)

lemma execute_start_run_fields:
  assumes np: "\<not> m_paused x" and ne: "ds_operators (dataSources x d) \<noteq> []"
  shows "\<exists>s'. execute_start x d = Inr s'
     \<and> trace s' = trace x @ Started # cancelEvents x
                    @ [WorkerRun (nextFuture x) (nextObject x) (ds_operators (dataSources x d))]
     \<and> heap s' (nextObject x) = storedPayload x d
     \<and> m_future s' = Some (nextFuture x)
     \<and> operators s' = operators x \<and> dataSources s' = dataSources x"
proof -
  let ?e = "emit x Started"
  let ?c = "cancelRunning ?e"
  let ?s' = "dispatch ?c d None (ds_operators (dataSources x d))"
  have e: "dataSources ?e = dataSources x" "operators ?e = operators x" "heap ?e = heap x"
    "nextObject ?e = nextObject x" "nextFuture ?e = nextFuture x"
    by (simp_all add: emit_def)
  have tc: "trace ?c = trace x @ Started # cancelEvents x"
    by (simp add: cancelRunning_fields cancelEvents_def emit_def split: option.splits)
  have sp: "storedPayload ?c d = storedPayload x d"
    by (rule storedPayload_cong) (simp_all add: cancelRunning_fields e)
  have "execute_start x d = Inr ?s'"
    using np ne by (rule execute_start_run)
  moreover have "trace ?s' = trace x @ Started # cancelEvents x
                    @ [WorkerRun (nextFuture x) (nextObject x) (ds_operators (dataSources x d))]"
    by (simp add: trace_dispatch tc cancelRunning_fields(4,5) e)
  moreover have "heap ?s' (nextObject x) = storedPayload x d"
    by (simp add: heap_dispatch_None cancelRunning_fields e sp)
  moreover have "m_future ?s' = Some (nextFuture x)"
    by (simp add: m_future_dispatch cancelRunning_fields e)
  moreover have "operators ?s' = operators x \<and> dataSources ?s' = dataSources x"
    by (simp add: dispatch_fields cancelRunning_fields e)
  ultimately show ?thesis by blast
qed

subsection \<open>The preview\<close>

lemma getCopy_run:
  assumes "1 < length (ds_operators (dataSources s (m_data s)))"
      and "0 < indexOf (ds_operators (dataSources s (m_data s))) op"
  shows "getCopyOfImagePriorTo s op =
     (nextImageFuture s,
      s\<lparr>heap := (heap s)(nextObject s := storedPayload s (m_data s)),
        nextObject := Suc (nextObject s),
        futures := (futures s)(nextFuture s :=
          \<lparr>f_operators = take (nat (indexOf (ds_operators (dataSources s (m_data s))) op))
                           (ds_operators (dataSources s (m_data s))),
           f_result = nextObject s, f_running = True, f_cancelRequested = False,
           f_finishedSlots = [ImageFutureFinished (nextImageFuture s)],
           f_canceledSlots = [ImageFutureCanceled (nextImageFuture s)],
           f_deleteLater = False\<rparr>),
        nextFuture := Suc (nextFuture s),
        trace := trace s @ [WorkerRun (nextFuture s) (nextObject s)
          (take (nat (indexOf (ds_operators (dataSources s (m_data s))) op))
             (ds_operators (dataSources s (m_data s))))],
        imageFutures := (imageFutures s)(nextImageFuture s :=
          \<lparr>img_operator = op, img_imageData = nextObject s, img_future = Some (nextFuture s)\<rparr>),
        nextImageFuture := Suc (nextImageFuture s)\<rparr>)"
  using assms
  by (simp add: getCopyOfImagePriorTo_def newImageFuture_def mid_def storedPayload_def Let_def
      copyData_def worker_run_def connectFinished_def connectCanceled_def)

lemma getCopy_immediate:
  assumes "\<not> (1 < length (ds_operators (dataSources s (m_data s)))
            \<and> 0 < indexOf (ds_operators (dataSources s (m_data s))) op)"
  shows "getCopyOfImagePriorTo s op =
     (nextImageFuture s,
      s\<lparr>heap := (heap s)(nextObject s := storedPayload s (m_data s)),
        nextObject := Suc (nextObject s),
        imageFutures := (imageFutures s)(nextImageFuture s :=
          \<lparr>img_operator = op, img_imageData = nextObject s, img_future = None\<rparr>),
        nextImageFuture := Suc (nextImageFuture s),
        deferred := deferred s @ [ImageFinished (nextImageFuture s) True]\<rparr>)"
  using assms
  by (auto simp add: getCopyOfImagePriorTo_def newImageFuture_def storedPayload_def Let_def
      copyData_def singleShot_def)

text \<open>An unsuccessful completion deletes the result of the handle and changes nothing
  else.\<close>

lemma pipelineBranchFinished_failure:
  "pipelineBranchFinished s future False = Inr (deleteObject s (f_result (futures s future)))"
  by (simp add: pipelineBranchFinished_def)

subsection \<open>The active handle at any time\<close>

text \<open>
  Every operation of the pipeline keeps \<open>atMostOneActive\<close>, and so does the worker when
  it stops a handle; the slots of a handle are called after the handle has stopped. A
  pipeline that has dispatched nothing satisfies it.
\<close>

lemma atMostOneActive_cong:
  "futures a = futures b \<Longrightarrow> nextFuture a = nextFuture b \<Longrightarrow> m_future a = m_future b
   \<Longrightarrow> atMostOneActive a = atMostOneActive b"
  by (simp add: atMostOneActive_iff isActive_def)

lemma atMostOneActive_upd:
  "atMostOneActive (s\<lparr>heap := h\<rparr>) = atMostOneActive s"
  "atMostOneActive (s\<lparr>trace := tr\<rparr>) = atMostOneActive s"
  "atMostOneActive (s\<lparr>deferred := df\<rparr>) = atMostOneActive s"
  "atMostOneActive (s\<lparr>operators := os\<rparr>) = atMostOneActive s"
  "atMostOneActive (s\<lparr>dataSources := ds\<rparr>) = atMostOneActive s"
  "atMostOneActive (s\<lparr>imageFutures := im\<rparr>) = atMostOneActive s"
  "atMostOneActive (s\<lparr>nextObject := no\<rparr>) = atMostOneActive s"
  "atMostOneActive (s\<lparr>nextDataSource := nd\<rparr>) = atMostOneActive s"
  "atMostOneActive (s\<lparr>nextImageFuture := ni\<rparr>) = atMostOneActive s"
  "atMostOneActive (s\<lparr>m_paused := pa\<rparr>) = atMostOneActive s"
  by (simp_all add: atMostOneActive_iff isActive_def)

lemma executePipelineBranch_Inr_shape:
  assumes r: "executePipelineBranch s d start = Inr s'"
      and np: "\<not> m_paused s" and ne: "ds_operators (dataSources s d) \<noteq> []"
  shows "\<exists>s3 data ops. s' = dispatch s3 d data ops
           \<and> futures s3 = futures (cancelRunning s)
           \<and> nextFuture s3 = nextFuture (cancelRunning s)"
proof (cases start)
  case None
  with r np ne show ?thesis
    by (auto simp: executePipelineBranch_def)
next
  case (Some x)
  let ?c = "cancelRunning s"
  obtain data s1 where p: "(case findTransformedDataSource ?c d of
                      Some t \<Rightarrow> (case copyData ?c t of (a, s1) \<Rightarrow> (Some a, s1))
                    | None \<Rightarrow> (None, ?c)) = (data, s1)"
    by (cases "(case findTransformedDataSource ?c d of
                      Some t \<Rightarrow> (case copyData ?c t of (a, s1) \<Rightarrow> (Some a, s1))
                    | None \<Rightarrow> (None, ?c))") blast
  have s1: "futures s1 = futures ?c" "nextFuture s1 = nextFuture ?c"
    using p by (auto simp: copyData_def split: option.splits)
  have rs: "\<And>c. futures (resetState s1 c) = futures ?c \<and> nextFuture (resetState s1 c) = nextFuture ?c"
    by (simp add: resetState_def s1)
  show ?thesis
  proof (cases "scanCanceled (operators s1) (ds_operators (dataSources s1 d)) x")
    case PastEnd
    with r np ne Some p show ?thesis by (simp add: executePipelineBranch_def)
  next
    case (HaveCanceled c)
    with r np ne Some p have "s' = dispatch (resetState s1 c) d data (ds_operators (dataSources s d))"
      by (simp add: executePipelineBranch_def)
    with rs[of c] show ?thesis by blast
  next
    case ReachedStart
    with r np ne Some p have "s' = dispatch (resetState s1 x) d data
        (mid_from (ds_operators (dataSources s d)) (indexOf (ds_operators (dataSources s d)) x))"
      by (simp add: executePipelineBranch_def)
    with rs[of x] show ?thesis by blast
  qed
qed

lemma executePipelineBranch_keeps_atMostOneActive:
  assumes inv: "atMostOneActive s" and r: "executePipelineBranch s d start = Inr s'"
  shows "atMostOneActive s'"
proof (cases "m_paused s \<or> ds_operators (dataSources s d) = []")
  case True
  then have "executePipelineBranch s d start = Inr s"
    by (auto simp: executePipelineBranch_def)
  with r inv show ?thesis by simp
next
  case False
  then obtain s3 data ops where s': "s' = dispatch s3 d data ops"
    and s3: "futures s3 = futures (cancelRunning s)" "nextFuture s3 = nextFuture (cancelRunning s)"
    using executePipelineBranch_Inr_shape[OF r] by blast
  have "\<forall>g<nextFuture s3. \<not> isActive s3 g"
    using cancelRunning_none_active[OF inv] isActive_cong[OF s3(1)] by (simp add: s3)
  then show ?thesis unfolding s' by (rule atMostOneActive_dispatch)
qed

lemma executePipelineBranch_old_futures:
  assumes r: "executePipelineBranch s d start = Inr s'" and g: "g < nextFuture s"
  shows "f_running (futures s' g) = f_running (futures s g) \<and> nextFuture s \<le> nextFuture s'"
proof (cases "m_paused s \<or> ds_operators (dataSources s d) = []")
  case True
  then have "executePipelineBranch s d start = Inr s"
    by (auto simp: executePipelineBranch_def)
  with r show ?thesis by simp
next
  case False
  then obtain s3 data ops where s': "s' = dispatch s3 d data ops"
    and s3: "futures s3 = futures (cancelRunning s)" "nextFuture s3 = nextFuture (cancelRunning s)"
    using executePipelineBranch_Inr_shape[OF r] by blast
  have c: "f_running (futures (cancelRunning s) g) = f_running (futures s g)"
    by (simp add: cancelRunning_def future_cancel_def split: option.splits)
  show ?thesis
    using g c by (simp add: s' futures_dispatch nextFuture_dispatch s3 cancelRunning_fields)
qed

lemma releaseFuture_keeps_atMostOneActive:
  assumes inv: "atMostOneActive s" and nr: "\<not> f_running (futures s f)"
  shows "atMostOneActive (releaseFuture s f)"
  using assms
  by (auto simp: atMostOneActive_iff isActive_def releaseFuture_def Let_def future_deleteLater_def)

lemma storeResult_frame:
  "futures (storeResult s f lastOp) = futures s"
  "nextFuture (storeResult s f lastOp) = nextFuture s"
  "m_future (storeResult s f lastOp) = m_future s"
  by (simp_all add: storeResult_def ensureChild_def Let_def prim_defs split: option.splits)

lemma pipelineBranchFinished_keeps_atMostOneActive:
  assumes inv: "atMostOneActive s" and r: "pipelineBranchFinished s f res = Inr s'"
      and nr: "\<not> f_running (futures s f)" and old: "f < nextFuture s"
  shows "atMostOneActive s'"
proof (cases res)
  case False
  with r have "s' = deleteObject s (f_result (futures s f))"
    by (simp add: pipelineBranchFinished_def)
  with inv show ?thesis
    by (simp add: atMostOneActive_upd deleteObject_def)
next
  case True
  let ?lastOp = "last (f_operators (futures s f))"
  let ?s1 = "storeResult s f ?lastOp"
  have i1: "atMostOneActive ?s1"
    using inv by (simp add: atMostOneActive_cong[of ?s1 s] storeResult_frame)
  have n1: "\<not> f_running (futures ?s1 f)" "f < nextFuture ?s1"
    using nr old by (simp_all add: storeResult_frame)
  from r True obtain s2 where s': "s' = releaseFuture s2 f"
    and s2: "(case childDataSource (operators ?s1 ?lastOp) of
                Some c \<Rightarrow> execute_start ?s1 c | None \<Rightarrow> Inr (emit ?s1 Finished)) = Inr s2"
    by (auto simp: pipelineBranchFinished_def Let_def split: if_splits sum.splits)
  have "atMostOneActive s2 \<and> \<not> f_running (futures s2 f)"
  proof (cases "childDataSource (operators ?s1 ?lastOp)")
    case None
    with s2 have "s2 = emit ?s1 Finished" by simp
    with i1 n1 show ?thesis
      by (simp add: atMostOneActive_upd emit_def)
  next
    case (Some c)
    with s2 have x: "executePipelineBranch (emit ?s1 Started) c None = Inr s2"
      by (simp add: execute_start_def)
    have ie: "atMostOneActive (emit ?s1 Started)"
      using i1 by (simp add: atMostOneActive_upd emit_def)
    have "f < nextFuture (emit ?s1 Started)" using n1 by (simp add: emit_def)
    from executePipelineBranch_old_futures[OF x this] n1
    have "\<not> f_running (futures s2 f)" by (simp add: emit_def)
    with executePipelineBranch_keeps_atMostOneActive[OF ie x] show ?thesis by simp
  qed
  then show ?thesis unfolding s' by (simp add: releaseFuture_keeps_atMostOneActive)
qed

lemma pipelineBranchCanceled_keeps_atMostOneActive:
  assumes inv: "atMostOneActive s" and nr: "\<not> f_running (futures s f)"
  shows "atMostOneActive (pipelineBranchCanceled s f)"
proof -
  let ?d = "deleteObject s (f_result (futures s f))"
  have "atMostOneActive ?d" "\<not> f_running (futures ?d f)"
    using inv nr by (simp_all add: atMostOneActive_upd deleteObject_def)
  then show ?thesis
    unfolding pipelineBranchCanceled_def by (rule releaseFuture_keeps_atMostOneActive)
qed

lemma cancel_keeps_atMostOneActive:
  assumes inv: "atMostOneActive s"
  shows "atMostOneActive (cancel s cb)"
  using assms
  by (auto simp: atMostOneActive_iff isActive_def cancel_def future_cancel_def connectCanceled_def
      split: option.splits)

lemma futureStopped_keeps_atMostOneActive:
  "atMostOneActive s \<Longrightarrow> atMostOneActive (futureStopped s f)"
  by (auto simp: atMostOneActive_iff isActive_def futureStopped_def)

lemma getCopyOfImagePriorTo_keeps_atMostOneActive:
  assumes inv: "atMostOneActive s"
  shows "atMostOneActive (snd (getCopyOfImagePriorTo s op))"
proof (cases "1 < length (ds_operators (dataSources s (m_data s)))
            \<and> 0 < indexOf (ds_operators (dataSources s (m_data s))) op")
  case True
  then have "1 < length (ds_operators (dataSources s (m_data s)))"
    "0 < indexOf (ds_operators (dataSources s (m_data s))) op" by simp_all
  from getCopy_run[OF this] inv show ?thesis
    by (auto simp: atMostOneActive_iff isActive_def less_Suc_eq)
next
  case False
  from getCopy_immediate[OF this] inv show ?thesis
    by (auto simp: atMostOneActive_iff isActive_def)
qed

lemma operatorAdded_keeps_atMostOneActive:
  assumes inv: "atMostOneActive s" and r: "operatorAdded s op = Inr s'"
  shows "atMostOneActive s'"
proof -
  from r obtain s1 where x: "operatorAdded_execute s op = Inr s1" and s': "s' = operatorAdded_move s1 op"
    by (auto simp: operatorAdded_def split: sum.splits)
  have f: "futures s' = futures s1" "nextFuture s' = nextFuture s1" "m_future s' = m_future s1"
    unfolding s'
    by (simp_all add: operatorAdded_move_def Let_def connectTransformModified_def singleShot_def
        setChildDataSource_def split: option.splits)
  from x obtain st where y: "executePipelineBranch (emit s Started) (op_dataSource (operators s op)) st = Inr s1"
    by (auto simp: operatorAdded_execute_def execute_start_last_def split: if_splits)
  have "atMostOneActive (emit s Started)"
    using inv by (simp add: atMostOneActive_upd emit_def)
  from executePipelineBranch_keeps_atMostOneActive[OF this y] show ?thesis
    by (simp add: atMostOneActive_cong[of s' s1] f)
qed

lemma operatorRemoved_keeps_atMostOneActive:
  assumes inv: "atMostOneActive s" and r: "operatorRemoved s op ok = Inr s'"
  shows "atMostOneActive s'"
proof -
  let ?s1 = "operatorRemoved_move s op"
  let ?x = "?s1\<lparr>trace := trace ?s1 @ cancelFromEvents s op\<rparr>"
  let ?d = "op_dataSource (operators s op)"
  have unfold: "operatorRemoved s op ok =
      (if isRunning s \<and> ok then Inr ?x else execute_start ?x ?d)"
    by (auto simp: operatorRemoved_def Let_def isRunning_def cancelFromEvents_def
        operatorRemoved_move_frame future_cancel_from_def emit_def split: option.splits)
  have ix: "atMostOneActive ?x"
    using inv atMostOneActive_cong[of ?s1 s] by (simp add: atMostOneActive_upd operatorRemoved_move_frame)
  show ?thesis
  proof (cases "isRunning s \<and> ok")
    case True
    with r unfold ix show ?thesis by simp
  next
    case False
    with r unfold have y: "executePipelineBranch (emit ?x Started) ?d None = Inr s'"
      by (simp add: execute_start_def)
    have "atMostOneActive (emit ?x Started)"
      using ix by (simp add: atMostOneActive_upd emit_def)
    from executePipelineBranch_keeps_atMostOneActive[OF this y] show ?thesis .
  qed
qed

lemma atMostOneActive_no_handles: "nextFuture s = 0 \<Longrightarrow> atMostOneActive s"
  by (simp add: atMostOneActive_def)

subsection \<open>Allocated data objects\<close>

text \<open>
  The data objects that data sources and handles hold lie below \<open>nextObject\<close>, so that a
  copy is a new object: the operations of the pipeline keep \<open>dataAllocated\<close> and
  \<open>resultsAllocated\<close>.
\<close>

lemma dataAllocated_iff:
  "dataAllocated s \<longleftrightarrow>
     (\<forall>d < nextDataSource s. \<forall>a. ds_data (dataSources s d) = Some a \<longrightarrow> a < nextObject s)"
  by (auto simp: dataAllocated_def list_all_iff split: option.splits)

lemma resultsAllocated_iff:
  "resultsAllocated s \<longleftrightarrow> (\<forall>f < nextFuture s. f_result (futures s f) < nextObject s)"
  by (auto simp: resultsAllocated_def list_all_iff)

lemma executePipelineBranch_Inr_alloc:
  assumes r: "executePipelineBranch s d start = Inr s'"
      and np: "\<not> m_paused s" and ne: "ds_operators (dataSources s d) \<noteq> []"
  shows "\<exists>s3 data ops. s' = dispatch s3 d data ops
           \<and> futures s3 = futures (cancelRunning s)
           \<and> nextFuture s3 = nextFuture s
           \<and> dataSources s3 = dataSources s
           \<and> nextDataSource s3 = nextDataSource s
           \<and> nextObject s \<le> nextObject s3
           \<and> (case data of Some a \<Rightarrow> a < nextObject s3 | None \<Rightarrow> True)"
proof -
  let ?c = "cancelRunning s"
  have c: "futures ?c = futures ?c" "nextFuture ?c = nextFuture s" "dataSources ?c = dataSources s"
    "nextDataSource ?c = nextDataSource s" "nextObject ?c = nextObject s"
    by (simp_all add: cancelRunning_fields)
  show ?thesis
  proof (cases start)
    case None
    with r np ne have "s' = dispatch ?c d None (ds_operators (dataSources s d))"
      by (auto simp: executePipelineBranch_def)
    with c show ?thesis by (intro exI[of _ ?c] exI[of _ None]) auto
  next
    case (Some x)
    obtain data s1 where p: "(case findTransformedDataSource ?c d of
                      Some t \<Rightarrow> (case copyData ?c t of (a, s1) \<Rightarrow> (Some a, s1))
                    | None \<Rightarrow> (None, ?c)) = (data, s1)"
      by (cases "(case findTransformedDataSource ?c d of
                      Some t \<Rightarrow> (case copyData ?c t of (a, s1) \<Rightarrow> (Some a, s1))
                    | None \<Rightarrow> (None, ?c))") blast
    have s1: "futures s1 = futures ?c" "nextFuture s1 = nextFuture s" "dataSources s1 = dataSources s"
      "nextDataSource s1 = nextDataSource s" "nextObject s \<le> nextObject s1"
      "(case data of Some a \<Rightarrow> a < nextObject s1 | None \<Rightarrow> True)"
      using p by (auto simp: copyData_def cancelRunning_fields split: option.splits)
    have rs: "\<And>c. futures (resetState s1 c) = futures ?c \<and> nextFuture (resetState s1 c) = nextFuture s
        \<and> dataSources (resetState s1 c) = dataSources s
        \<and> nextDataSource (resetState s1 c) = nextDataSource s
        \<and> nextObject s \<le> nextObject (resetState s1 c)
        \<and> (case data of Some a \<Rightarrow> a < nextObject (resetState s1 c) | None \<Rightarrow> True)"
      using s1 by (simp add: resetState_def cong: option.case_cong)
    show ?thesis
    proof (cases "scanCanceled (operators s1) (ds_operators (dataSources s1 d)) x")
      case PastEnd
      with r np ne Some p show ?thesis by (simp add: executePipelineBranch_def)
    next
      case (HaveCanceled c)
      with r np ne Some p have "s' = dispatch (resetState s1 c) d data (ds_operators (dataSources s d))"
        by (simp add: executePipelineBranch_def)
      with rs[of c] show ?thesis by blast
    next
      case ReachedStart
      with r np ne Some p have "s' = dispatch (resetState s1 x) d data
          (mid_from (ds_operators (dataSources s d)) (indexOf (ds_operators (dataSources s d)) x))"
        by (simp add: executePipelineBranch_def)
      with rs[of x] show ?thesis by blast
    qed
  qed
qed

lemma dispatch_alloc_fields:
  "nextObject (dispatch s d data ops) = (case data of Some a \<Rightarrow> nextObject s | None \<Rightarrow> Suc (nextObject s))"
  by (simp add: dispatch_def prim_defs split: option.splits)

lemma executePipelineBranch_keeps_allocated:
  assumes da: "dataAllocated s" and ra: "resultsAllocated s"
      and r: "executePipelineBranch s d start = Inr s'"
  shows "dataAllocated s' \<and> resultsAllocated s'
       \<and> nextFuture s \<le> nextFuture s' \<and> nextDataSource s' = nextDataSource s
       \<and> (\<forall>f < nextFuture s. f_result (futures s' f) = f_result (futures s f))"
proof (cases "m_paused s \<or> ds_operators (dataSources s d) = []")
  case True
  then have "executePipelineBranch s d start = Inr s"
    by (auto simp: executePipelineBranch_def)
  with r da ra show ?thesis by simp
next
  case False
  then obtain s3 data ops where s': "s' = dispatch s3 d data ops"
    and s3: "futures s3 = futures (cancelRunning s)" "nextFuture s3 = nextFuture s"
      "dataSources s3 = dataSources s" "nextDataSource s3 = nextDataSource s"
      "nextObject s \<le> nextObject s3"
      "(case data of Some a \<Rightarrow> a < nextObject s3 | None \<Rightarrow> True)"
    using executePipelineBranch_Inr_alloc[OF r] by blast
  have cr: "\<And>f. f_result (futures (cancelRunning s) f) = f_result (futures s f)"
    by (simp add: cancelRunning_def future_cancel_def split: option.splits)
  have "dataAllocated s'"
    using da s3 unfolding s' dataAllocated_iff
    by (auto simp: dispatch_fields dispatch_alloc_fields split: option.splits)
  moreover have "resultsAllocated s'"
    using ra s3 cr unfolding s' resultsAllocated_iff
    by (auto simp: futures_dispatch nextFuture_dispatch dispatch_alloc_fields less_Suc_eq
        split: option.splits)
  moreover have "\<forall>f < nextFuture s. f_result (futures s' f) = f_result (futures s f)"
    using s3 cr unfolding s' by (simp add: futures_dispatch)
  ultimately show ?thesis
    unfolding s' by (simp add: nextFuture_dispatch dispatch_fields s3)
qed

lemma getCopyOfImagePriorTo_keeps_allocated:
  assumes "dataAllocated s" and "resultsAllocated s"
  shows "dataAllocated (snd (getCopyOfImagePriorTo s op))
       \<and> resultsAllocated (snd (getCopyOfImagePriorTo s op))"
proof (cases "1 < length (ds_operators (dataSources s (m_data s)))
            \<and> 0 < indexOf (ds_operators (dataSources s (m_data s))) op")
  case True
  then have "1 < length (ds_operators (dataSources s (m_data s)))"
    "0 < indexOf (ds_operators (dataSources s (m_data s))) op" by simp_all
  from getCopy_run[OF this] assms show ?thesis
    by (auto simp: dataAllocated_iff resultsAllocated_iff less_Suc_eq)
next
  case False
  from getCopy_immediate[OF this] assms show ?thesis
    by (auto simp: dataAllocated_iff resultsAllocated_iff less_Suc_eq)
qed

lemma storeResult_keeps_allocated:
  assumes da: "dataAllocated s" and ra: "resultsAllocated s" and old: "f < nextFuture s"
      and c: "\<forall>x. childDataSource (operators s lastOp) = Some x \<longrightarrow> x < nextDataSource s"
  shows "dataAllocated (storeResult s f lastOp) \<and> resultsAllocated (storeResult s f lastOp)"
proof -
  have r: "f_result (futures s f) < nextObject s"
    using ra old by (simp add: resultsAllocated_iff)
  show ?thesis
    using da ra r
    by (auto simp: storeResult_def ensureChild_def Let_def prim_defs dataAllocated_iff
        resultsAllocated_iff less_Suc_eq split: option.splits)
qed

lemma allocated_upd:
  "dataAllocated (s\<lparr>trace := tr\<rparr>) = dataAllocated s"
  "dataAllocated (s\<lparr>heap := h\<rparr>) = dataAllocated s"
  "dataAllocated (s\<lparr>m_future := mf\<rparr>) = dataAllocated s"
  "dataAllocated (s\<lparr>futures := fs\<rparr>) = dataAllocated s"
  "dataAllocated (s\<lparr>operators := os\<rparr>) = dataAllocated s"
  "dataAllocated (s\<lparr>deferred := df\<rparr>) = dataAllocated s"
  "resultsAllocated (s\<lparr>trace := tr\<rparr>) = resultsAllocated s"
  "resultsAllocated (s\<lparr>heap := h\<rparr>) = resultsAllocated s"
  "resultsAllocated (s\<lparr>m_future := mf\<rparr>) = resultsAllocated s"
  "resultsAllocated (s\<lparr>operators := os\<rparr>) = resultsAllocated s"
  "resultsAllocated (s\<lparr>dataSources := ds\<rparr>) = resultsAllocated s"
  "resultsAllocated (s\<lparr>deferred := df\<rparr>) = resultsAllocated s"
  by (simp_all add: dataAllocated_iff resultsAllocated_iff)

lemma releaseFuture_keeps_allocated:
  "dataAllocated (releaseFuture s f) = dataAllocated s"
  "resultsAllocated (releaseFuture s f) = resultsAllocated s"
  by (auto simp: releaseFuture_def Let_def future_deleteLater_def dataAllocated_iff
      resultsAllocated_iff)

lemma pipelineBranchFinished_keeps_allocated:
  assumes da: "dataAllocated s" and ra: "resultsAllocated s"
      and r: "pipelineBranchFinished s f res = Inr s'" and old: "f < nextFuture s"
      and c: "\<forall>x. childDataSource (operators s (last (f_operators (futures s f)))) = Some x
                \<longrightarrow> x < nextDataSource s"
  shows "dataAllocated s' \<and> resultsAllocated s'"
proof (cases res)
  case False
  with r have "s' = deleteObject s (f_result (futures s f))"
    by (simp add: pipelineBranchFinished_def)
  with da ra show ?thesis
    by (simp add: allocated_upd deleteObject_def)
next
  case True
  let ?lastOp = "last (f_operators (futures s f))"
  let ?s1 = "storeResult s f ?lastOp"
  have a1: "dataAllocated ?s1 \<and> resultsAllocated ?s1"
    using da ra old c by (rule storeResult_keeps_allocated)
  from r True obtain s2 where s': "s' = releaseFuture s2 f"
    and s2: "(case childDataSource (operators ?s1 ?lastOp) of
                Some c \<Rightarrow> execute_start ?s1 c | None \<Rightarrow> Inr (emit ?s1 Finished)) = Inr s2"
    by (auto simp: pipelineBranchFinished_def Let_def split: if_splits sum.splits)
  have "dataAllocated s2 \<and> resultsAllocated s2"
  proof (cases "childDataSource (operators ?s1 ?lastOp)")
    case None
    with s2 have "s2 = emit ?s1 Finished" by simp
    with a1 show ?thesis by (simp add: allocated_upd emit_def)
  next
    case (Some c)
    with s2 have x: "executePipelineBranch (emit ?s1 Started) c None = Inr s2"
      by (simp add: execute_start_def)
    have "dataAllocated (emit ?s1 Started)" "resultsAllocated (emit ?s1 Started)"
      using a1 by (simp_all add: allocated_upd emit_def)
    from executePipelineBranch_keeps_allocated[OF this x] show ?thesis by simp
  qed
  then show ?thesis unfolding s' by (simp add: releaseFuture_keeps_allocated)
qed

lemma operatorAdded_keeps_allocated:
  assumes da: "dataAllocated s" and ra: "resultsAllocated s" and r: "operatorAdded s op = Inr s'"
  shows "dataAllocated s' \<and> resultsAllocated s'"
proof -
  from r obtain s1 where x: "operatorAdded_execute s op = Inr s1" and s': "s' = operatorAdded_move s1 op"
    by (auto simp: operatorAdded_def split: sum.splits)
  have f: "dataAllocated s' = dataAllocated s1" "resultsAllocated s' = resultsAllocated s1"
    unfolding s'
    by (simp_all add: operatorAdded_move_def Let_def connectTransformModified_def singleShot_def
        setChildDataSource_def allocated_upd split: option.splits)
  from x obtain st where y: "executePipelineBranch (emit s Started) (op_dataSource (operators s op)) st = Inr s1"
    by (auto simp: operatorAdded_execute_def execute_start_last_def split: if_splits)
  have "dataAllocated (emit s Started)" "resultsAllocated (emit s Started)"
    using da ra by (simp_all add: allocated_upd emit_def)
  from executePipelineBranch_keeps_allocated[OF this y] show ?thesis
    by (simp add: f)
qed

lemma operatorRemoved_move_keeps_allocated:
  "dataAllocated (operatorRemoved_move s op) = dataAllocated s"
  "resultsAllocated (operatorRemoved_move s op) = resultsAllocated s"
  by (auto simp: operatorRemoved_move_def Let_def setChildDataSource_def emit_def
      removeAllOperators_def dataSource_deleteLater_def dataAllocated_iff resultsAllocated_iff
      split: option.splits)

lemma operatorRemoved_keeps_allocated:
  assumes da: "dataAllocated s" and ra: "resultsAllocated s" and r: "operatorRemoved s op ok = Inr s'"
  shows "dataAllocated s' \<and> resultsAllocated s'"
proof -
  let ?s1 = "operatorRemoved_move s op"
  let ?x = "?s1\<lparr>trace := trace ?s1 @ cancelFromEvents s op\<rparr>"
  let ?d = "op_dataSource (operators s op)"
  have unfold: "operatorRemoved s op ok =
      (if isRunning s \<and> ok then Inr ?x else execute_start ?x ?d)"
    by (auto simp: operatorRemoved_def Let_def isRunning_def cancelFromEvents_def
        operatorRemoved_move_frame future_cancel_from_def emit_def split: option.splits)
  have ax: "dataAllocated ?x" "resultsAllocated ?x"
    using da ra by (simp_all add: allocated_upd operatorRemoved_move_keeps_allocated)
  show ?thesis
  proof (cases "isRunning s \<and> ok")
    case True
    with r unfold ax show ?thesis by simp
  next
    case False
    with r unfold have y: "executePipelineBranch (emit ?x Started) ?d None = Inr s'"
      by (simp add: execute_start_def)
    have "dataAllocated (emit ?x Started)" "resultsAllocated (emit ?x Started)"
      using ax by (simp_all add: allocated_upd emit_def)
    from executePipelineBranch_keeps_allocated[OF this y] show ?thesis by simp
  qed
qed

subsection \<open>The claims\<close>

text \<open>
  C1. A handle that completes successfully: when the last operator it ran declares no child
  of its own, the data source that holds the transformed data is made if the operator has
  none yet (parented under the pipeline, connected, announced by \<open>newChildDataSource\<close>) and
  only then; the result of the handle is stored into it. Then, when the last operator has a
  child, \<open>execute\<close> is called on the child, and otherwise \<open>finished\<close> is emitted. The
  handle is released last.
\<close>

theorem pipelineBranchFinished_success:
  assumes "f_operators (futures s future) \<noteq> []"
      and "lastOp = last (f_operators (futures s future))"
      and "r = f_result (futures s future)"
  shows "(hasChildDataSource (operators s lastOp) \<longrightarrow>
           (case childDataSource (operators s lastOp) of
              Some c \<Rightarrow> (\<exists>s2. execute_start s c = Inr s2
                           \<and> pipelineBranchFinished s future True = Inr (releaseFuture s2 future))
            | None \<Rightarrow> pipelineBranchFinished s future True
                        = Inr (releaseFuture (emit s Finished) future)))
       \<and> (\<not> hasChildDataSource (operators s lastOp) \<longrightarrow>
           (case childDataSource (operators s lastOp) of
              Some c \<Rightarrow>
                (\<exists>s2. execute_start
                         (s\<lparr>dataSources := (dataSources s)(c := (dataSources s c)\<lparr>ds_data := Some r\<rparr>),
                            trace := trace s @ [SetData c r, DataModified c]\<rparr>) c = Inr s2
                     \<and> pipelineBranchFinished s future True = Inr (releaseFuture s2 future))
            | None \<Rightarrow>
                (\<exists>s2. execute_start
                         (s\<lparr>dataSources := (dataSources s)(nextDataSource s :=
                               \<lparr>ds_label = ''Output'', ds_operators = [], ds_data = Some r,
                                ds_parent = PipelineParent, ds_connected = True,
                                ds_deleteLater = False\<rparr>),
                            operators := (operators s)(lastOp :=
                               (operators s lastOp)\<lparr>childDataSource := Some (nextDataSource s)\<rparr>),
                            nextDataSource := Suc (nextDataSource s),
                            trace := trace s @ [SetData (nextDataSource s) r,
                               DataModified (nextDataSource s),
                               NewChildDataSource lastOp (nextDataSource s)]\<rparr>)
                         (nextDataSource s) = Inr s2
                     \<and> pipelineBranchFinished s future True = Inr (releaseFuture s2 future))))"
proof (intro conjI impI)
  let ?res = "pipelineBranchFinished s future True"
  assume e: "hasChildDataSource (operators s lastOp)"
  show "case childDataSource (operators s lastOp) of
          Some c \<Rightarrow> (\<exists>s2. execute_start s c = Inr s2 \<and> ?res = Inr (releaseFuture s2 future))
        | None \<Rightarrow> ?res = Inr (releaseFuture (emit s Finished) future)"
  proof (cases "childDataSource (operators s lastOp)")
    case None
    with e assms show ?thesis
      by (simp add: pipelineBranchFinished_def storeResult_def)
  next
    case (Some c)
    obtain s2 where "execute_start s c = Inr s2"
      using execute_start_total by blast
    with Some e assms show ?thesis
      by (simp add: pipelineBranchFinished_def storeResult_def)
  qed
next
  let ?res = "pipelineBranchFinished s future True"
  assume e: "\<not> hasChildDataSource (operators s lastOp)"
  show "case childDataSource (operators s lastOp) of
              Some c \<Rightarrow>
                (\<exists>s2. execute_start
                         (s\<lparr>dataSources := (dataSources s)(c := (dataSources s c)\<lparr>ds_data := Some r\<rparr>),
                            trace := trace s @ [SetData c r, DataModified c]\<rparr>) c = Inr s2
                     \<and> ?res = Inr (releaseFuture s2 future))
            | None \<Rightarrow>
                (\<exists>s2. execute_start
                         (s\<lparr>dataSources := (dataSources s)(nextDataSource s :=
                               \<lparr>ds_label = ''Output'', ds_operators = [], ds_data = Some r,
                                ds_parent = PipelineParent, ds_connected = True,
                                ds_deleteLater = False\<rparr>),
                            operators := (operators s)(lastOp :=
                               (operators s lastOp)\<lparr>childDataSource := Some (nextDataSource s)\<rparr>),
                            nextDataSource := Suc (nextDataSource s),
                            trace := trace s @ [SetData (nextDataSource s) r,
                               DataModified (nextDataSource s),
                               NewChildDataSource lastOp (nextDataSource s)]\<rparr>)
                         (nextDataSource s) = Inr s2
                     \<and> ?res = Inr (releaseFuture s2 future))"
  proof (cases "childDataSource (operators s lastOp)")
    case None
    let ?s1 = "s\<lparr>dataSources := (dataSources s)(nextDataSource s :=
                               \<lparr>ds_label = ''Output'', ds_operators = [], ds_data = Some r,
                                ds_parent = PipelineParent, ds_connected = True,
                                ds_deleteLater = False\<rparr>),
                            operators := (operators s)(lastOp :=
                               (operators s lastOp)\<lparr>childDataSource := Some (nextDataSource s)\<rparr>),
                            nextDataSource := Suc (nextDataSource s),
                            trace := trace s @ [SetData (nextDataSource s) r,
                               DataModified (nextDataSource s),
                               NewChildDataSource lastOp (nextDataSource s)]\<rparr>"
    have st: "storeResult s future lastOp = ?s1"
      using None e assms
      by (simp add: storeResult_def ensureChild_def prim_defs)
    obtain s2 where x: "execute_start ?s1 (nextDataSource s) = Inr s2"
      using execute_start_total by blast
    have "?res = Inr (releaseFuture s2 future)"
      using assms(1) x
      unfolding pipelineBranchFinished_def Let_def assms(2)[symmetric] st
      by simp
    with x None show ?thesis by simp
  next
    case (Some c)
    let ?s1 = "s\<lparr>dataSources := (dataSources s)(c := (dataSources s c)\<lparr>ds_data := Some r\<rparr>),
                            trace := trace s @ [SetData c r, DataModified c]\<rparr>"
    have st: "storeResult s future lastOp = ?s1"
      using Some e assms
      by (simp add: storeResult_def ensureChild_def prim_defs)
    obtain s2 where x: "execute_start ?s1 c = Inr s2"
      using execute_start_total by blast
    have "?res = Inr (releaseFuture s2 future)"
      using assms(1) x Some
      unfolding pipelineBranchFinished_def Let_def assms(2)[symmetric] st
      by simp
    with x Some show ?thesis by simp
  qed
qed

text \<open>
  C2. Whenever \<open>executePipelineBranch\<close> dispatches a run while the handle in \<open>m_future\<close>
  is still running, it asks that handle to cancel before it obtains the new handle from the
  worker; afterwards the new handle is the one in \<open>m_future\<close> and it is the only active one.
\<close>

theorem executePipelineBranch_cancels_prior_handle:
  assumes np: "\<not> m_paused s" and ne: "ds_operators (dataSources s d) \<noteq> []"
      and st: "startInBranch s d start"
      and inv: "atMostOneActive s"
      and mf: "m_future s = Some f" and run: "f_running (futures s f)"
      and old: "f < nextFuture s"
  shows "\<exists>s' data ops. executePipelineBranch s d start = Inr s'
           \<and> trace s' = trace s @ [FutureCancel f, WorkerRun (nextFuture s) data ops]
           \<and> f_cancelRequested (futures s' f)
           \<and> m_future s' = Some (nextFuture s)
           \<and> isActive s' (nextFuture s)
           \<and> atMostOneActive s'"
proof -
  let ?c = "cancelRunning s"
  have c: "?c = future_cancel s f"
    using mf run by (simp add: cancelRunning_def)
  have na: "\<forall>g < nextFuture ?c. \<not> isActive ?c g"
    using inv by (rule cancelRunning_none_active)
  have tr: "trace ?c = trace s @ [FutureCancel f]" and nf: "nextFuture ?c = nextFuture s"
    and cr: "f_cancelRequested (futures ?c f)"
    by (simp_all add: c future_cancel_def)
  obtain s3 data ops where r: "executePipelineBranch s d start = Inr (dispatch s3 d data ops)"
    and s3: "trace s3 = trace ?c" "futures s3 = futures ?c" "nextFuture s3 = nextFuture ?c"
    using executePipelineBranch_shape[OF np ne st] by blast
  let ?s' = "dispatch s3 d data ops"
  have "trace ?s' = trace s @ [FutureCancel f,
          WorkerRun (nextFuture s) (case data of Some a \<Rightarrow> a | None \<Rightarrow> nextObject s3) ops]"
    by (simp add: trace_dispatch tr nf s3)
  moreover have "f_cancelRequested (futures ?s' f)"
    using old cr by (simp add: futures_dispatch nf s3)
  moreover have "m_future ?s' = Some (nextFuture s)"
    by (simp add: m_future_dispatch nf s3)
  moreover have "isActive ?s' (nextFuture s)"
    by (simp add: isActive_def futures_dispatch nf s3)
  moreover have "atMostOneActive ?s'"
  proof (rule atMostOneActive_dispatch)
    show "\<forall>g<nextFuture s3. \<not> isActive s3 g"
      using na isActive_cong[OF s3(2)] by (simp add: s3)
  qed
  ultimately show ?thesis using r by blast
qed

text \<open>
  C3. The code at an input where the claim fails: operator 1 of the root is canceled and
  still owns the data source with its earlier output; the resume point is operator 2. The
  canceled operator is reset and the whole list is run again, but on a copy of the earlier
  output (content 111), not on a copy of the root's data (content 100).
\<close>

theorem executePipelineBranch_canceled_runs_on_transformed_data:
  "(case execute_start_last canceledWithChild 0 True of
       Inr s' \<Rightarrow> trace s' = [Started, WorkerRun 0 2 [1, 2]]
              \<and> heap s' 2 = Some 111
              \<and> storedPayload s' 0 = Some 100
              \<and> op_state (operators s' 1) = StepPending
     | Inl e \<Rightarrow> False)"
  by (simp add: execute_start_last_def executePipelineBranch_def dispatch_def cancelRunning_def
      findTransformedDataSource_def findTransformedDataSourceOperator_def mid_from_def
      storedPayload_def prim_defs ex_defs canceledWithChild_def)

text \<open>
  C4. The code at an input where the claim fails: the handle 0 of \<open>afterRun\<close> ends without
  success. Its result is deleted, nothing else changes: \<open>m_future\<close> still refers to the handle
  and the handle is not released, which \<open>pipelineBranchCanceled\<close> and the successful path
  both do.
\<close>

theorem pipelineBranchFinished_failure_keeps_handle:
  "(case pipelineBranchFinished (futureStopped afterRun 0) 0 False of
       Inr s' \<Rightarrow> m_future s' = Some 0 \<and> \<not> f_deleteLater (futures s' 0) \<and> heap s' 1 = None
              \<and> trace s' = trace afterRun \<and> nextDataSource s' = nextDataSource afterRun
     | Inl e \<Rightarrow> False)"
  by (simp add: pipelineBranchFinished_def futureStopped_def afterRun_def prim_defs ex_defs)

text \<open>
  C5, as the code has it. When the pipeline is paused or the branch has no operators,
  \<open>executePipelineBranch\<close> changes nothing, and the three overloads of \<open>execute\<close> emit
  \<open>started\<close> and nothing else; \<open>execute(start, true)\<close> on a data source without operators
  takes the last element of an empty list.
\<close>

theorem execute_gate:
  assumes "m_paused s \<or> ds_operators (dataSources s d) = []"
  shows "executePipelineBranch s d start = Inr s
       \<and> execute_start s d = Inr (emit s Started)
       \<and> execute_start_last s d lst =
           (if lst \<and> ds_operators (dataSources s d) = [] then Inl LastOfEmptyList
            else Inr (emit s Started))
       \<and> (d = m_data s \<longrightarrow> execute s = Inr (emit s Started))"
  using assms
  by (auto simp: executePipelineBranch_def execute_start_def execute_start_last_def
      execute_def emit_def)

text \<open>C5 as stated fails: a paused pipeline still emits \<open>started\<close>.\<close>

theorem execute_paused_emits_started:
  "m_paused (pause twoSteps)
   \<and> (case execute_start (pause twoSteps) 0 of
        Inr s' \<Rightarrow> trace (pause twoSteps) = [] \<and> trace s' = [Started]
      | Inl e \<Rightarrow> False)"
  by (simp add: execute_start_def executePipelineBranch_def pause_def emit_def ex_defs)

text \<open>
  C6, as the code has it. A step is added at the end of a data source: \<open>execute\<close> is
  called for the data source with its last operator as resume point; a paused pipeline then
  only emits \<open>started\<close>, otherwise a run is dispatched, of the new operator alone when no
  operator before it is canceled (on a copy of the data of the transformed data source, or
  of the node's own when there is none), and of the whole operator list when one is. Then,
  when the data source has more than one operator and one of them owns a child it has not
  declared, that child is taken from its owner and given to the new operator, and
  \<open>dataSourceMoved\<close> is posted to the event loop: it is in \<open>deferred\<close>, and the
  trace of the handler does not have it.
\<close>

theorem operatorAdded_appended:
  assumes d: "op_dataSource (operators s op) = d"
      and ops: "ds_operators (dataSources s d) = pre @ [op]"
      and new: "op \<notin> set pre"
  shows "\<exists>s1. operatorAdded_execute s op = Inr s1
           \<and> operatorAdded s op = Inr (operatorAdded_move s1 op)
           \<and> (if m_paused s then s1 = emit s Started
               else trace s1 = trace s @ Started # cancelEvents s
                       @ [WorkerRun (nextFuture s) (nextObject s)
                            (if \<exists>c\<in>set pre. isCanceled s c then pre @ [op] else [op])]
                    \<and> m_future s1 = Some (nextFuture s)
                    \<and> ((\<forall>c\<in>set pre. \<not> isCanceled s c) \<longrightarrow>
                         heap s1 (nextObject s) =
                           storedPayload s (case findTransformedDataSource s d of
                                              Some t \<Rightarrow> t | None \<Rightarrow> d)))
           \<and> trace (operatorAdded_move s1 op) = trace s1
           \<and> (case (if pre = [] then None else findTransformedDataSourceOperator s d) of
                 None \<Rightarrow> deferred (operatorAdded_move s1 op) = deferred s
                        \<and> (\<forall>q. childDataSource (operators (operatorAdded_move s1 op) q)
                                  = childDataSource (operators s q))
               | Some t \<Rightarrow>
                   deferred (operatorAdded_move s1 op)
                     = deferred s @ [DataSourceMoved op (childDataSource (operators s t))]
                   \<and> childDataSource (operators s t) \<noteq> None
                   \<and> (\<forall>q. childDataSource (operators (operatorAdded_move s1 op) q)
                             = (if q = op then childDataSource (operators s t)
                                else if q = t then None
                                else childDataSource (operators s q))))"
proof -
  let ?E = "\<lambda>s1. if m_paused s then s1 = emit s Started
               else trace s1 = trace s @ Started # cancelEvents s
                       @ [WorkerRun (nextFuture s) (nextObject s)
                            (if \<exists>c\<in>set pre. isCanceled s c then pre @ [op] else [op])]
                    \<and> m_future s1 = Some (nextFuture s)
                    \<and> ((\<forall>c\<in>set pre. \<not> isCanceled s c) \<longrightarrow>
                         heap s1 (nextObject s) =
                           storedPayload s (case findTransformedDataSource s d of
                                              Some t \<Rightarrow> t | None \<Rightarrow> d))"
  let ?M = "\<lambda>s1. case (if pre = [] then None else findTransformedDataSourceOperator s d) of
                 None \<Rightarrow> deferred (operatorAdded_move s1 op) = deferred s
                        \<and> (\<forall>q. childDataSource (operators (operatorAdded_move s1 op) q)
                                  = childDataSource (operators s q))
               | Some t \<Rightarrow>
                   deferred (operatorAdded_move s1 op)
                     = deferred s @ [DataSourceMoved op (childDataSource (operators s t))]
                   \<and> childDataSource (operators s t) \<noteq> None
                   \<and> (\<forall>q. childDataSource (operators (operatorAdded_move s1 op) q)
                             = (if q = op then childDataSource (operators s t)
                                else if q = t then None
                                else childDataSource (operators s q)))"
  let ?R = "\<lambda>s1. trace (operatorAdded_move s1 op) = trace s1 \<and> ?M s1"
  show ?thesis
  proof (cases "m_paused s")
  case True
  have x: "operatorAdded_execute s op = Inr (emit s Started)"
    using True ops d by (simp add: operatorAdded_execute_def execute_start_last_def
        executePipelineBranch_def emit_def)
  have fr1: "dataSources (emit s Started) = dataSources s"
    and fr2: "\<forall>q. hasChildDataSource (operators (emit s Started) q) = hasChildDataSource (operators s q)
                \<and> childDataSource (operators (emit s Started) q) = childDataSource (operators s q)
                \<and> op_dataSource (operators (emit s Started) q) = op_dataSource (operators s q)"
    and dfr: "deferred (emit s Started) = deferred s"
    by (simp_all add: emit_def)
  have mv: "?R (emit s Started)"
    using operatorAdded_move_effect[OF fr1 fr2 d ops] by (simp only: dfr)
  show ?thesis
  proof (intro exI[of _ "emit s Started"] conjI)
    show "operatorAdded_execute s op = Inr (emit s Started)" by (rule x)
    show "operatorAdded s op = Inr (operatorAdded_move (emit s Started) op)"
      by (simp add: operatorAdded_def x)
    show "?E (emit s Started)"
      by (subst if_P[OF True]) (rule refl)
    show "trace (operatorAdded_move (emit s Started) op) = trace (emit s Started)"
      using mv by (rule conjunct1)
    show "?M (emit s Started)" using mv by (rule conjunct2)
  qed
next
  case False
  obtain s3 where r: "execute_start_last s d True =
           Inr (dispatch s3 d
                  (case findTransformedDataSource s d of Some t \<Rightarrow> Some (nextObject s) | None \<Rightarrow> None)
                  (if \<exists>c\<in>set pre. isCanceled s c then pre @ [op] else [op]))"
    and s3: "trace s3 = trace (cancelRunning (emit s Started))"
         "nextFuture s3 = nextFuture s"
         "dataSources s3 = dataSources s"
         "deferred s3 = deferred s"
    and fr: "\<forall>q. hasChildDataSource (operators s3 q) = hasChildDataSource (operators s q)
                \<and> childDataSource (operators s3 q) = childDataSource (operators s q)
                \<and> op_dataSource (operators s3 q) = op_dataSource (operators s q)"
    and hp: "(case findTransformedDataSource s d of
               Some t \<Rightarrow> heap s3 = (heap s)(nextObject s := storedPayload s t)
                         \<and> nextObject s3 = Suc (nextObject s)
             | None \<Rightarrow> heap s3 = heap s \<and> nextObject s3 = nextObject s)"
    using execute_start_last_run[OF False ops new] by blast
  let ?s1 = "dispatch s3 d
                  (case findTransformedDataSource s d of Some t \<Rightarrow> Some (nextObject s) | None \<Rightarrow> None)
                  (if \<exists>c\<in>set pre. isCanceled s c then pre @ [op] else [op])"
  have x: "operatorAdded_execute s op = Inr ?s1"
    using r d by (simp add: operatorAdded_execute_def)
  have tc: "trace (cancelRunning (emit s Started)) = trace s @ Started # cancelEvents s"
    by (simp add: cancelRunning_fields cancelEvents_def emit_def split: option.splits)
  have t: "trace ?s1 = trace s @ Started # cancelEvents s
                       @ [WorkerRun (nextFuture s) (nextObject s)
                            (if \<exists>c\<in>set pre. isCanceled s c then pre @ [op] else [op])]"
    using hp by (simp add: trace_dispatch s3 tc split: option.splits)
  have m: "m_future ?s1 = Some (nextFuture s)"
    by (simp add: m_future_dispatch s3)
  have h: "heap ?s1 (nextObject s) =
             storedPayload s (case findTransformedDataSource s d of Some t \<Rightarrow> t | None \<Rightarrow> d)"
    using hp s3(3)
    by (auto simp: heap_dispatch_None heap_dispatch_Some storedPayload_def split: option.splits)
  have fr1: "dataSources ?s1 = dataSources s"
    and fr2: "\<forall>q. hasChildDataSource (operators ?s1 q) = hasChildDataSource (operators s q)
                \<and> childDataSource (operators ?s1 q) = childDataSource (operators s q)
                \<and> op_dataSource (operators ?s1 q) = op_dataSource (operators s q)"
    and dfr: "deferred ?s1 = deferred s"
    using fr by (simp_all add: dispatch_fields s3)
  have mv: "?R ?s1"
    using operatorAdded_move_effect[OF fr1 fr2 d ops] by (simp only: dfr)
  show ?thesis
  proof (intro exI[of _ "?s1"] conjI)
    show "operatorAdded_execute s op = Inr ?s1" by (rule x)
    show "operatorAdded s op = Inr (operatorAdded_move ?s1 op)"
      by (simp add: operatorAdded_def x)
    show "?E ?s1"
      by (subst if_not_P[OF False]) (rule conjI[OF t conjI[OF m impI[OF h]]])
    show "trace (operatorAdded_move ?s1 op) = trace ?s1"
      using mv by (rule conjunct1)
    show "?M ?s1" using mv by (rule conjunct2)
  qed
  qed
qed

text \<open>C6 as stated fails: in a paused pipeline a step is added and nothing is run; with a
  canceled operator before the new one the run starts from the first operator.\<close>

theorem operatorAdded_counterexample:
  "m_paused (pause stepAdded)
   \<and> (case operatorAdded (pause stepAdded) 2 of
         Inr s' \<Rightarrow> trace s' = [Started] \<and> nextFuture s' = nextFuture stepAdded
       | Inl e \<Rightarrow> False)
   \<and> \<not> m_paused canceledWithChild
   \<and> (case operatorAdded canceledWithChild 2 of
         Inr s' \<Rightarrow> trace s' = [Started, WorkerRun 0 2 [1, 2]]
       | Inl e \<Rightarrow> False)"
  by (simp add: operatorAdded_def operatorAdded_execute_def operatorAdded_move_def
      execute_start_last_def executePipelineBranch_def dispatch_def cancelRunning_def
      findTransformedDataSource_def findTransformedDataSourceOperator_def mid_from_def
      pause_def Let_def prim_defs ex_defs canceledWithChild_def stepAdded_def)

text \<open>
  C7, as the code has it. A step has been removed from a data source: when it owned a child
  it had not declared, the child goes to the last remaining operator and
  \<open>dataSourceMoved\<close> is emitted, or, when no operator remains, the child loses all its
  operators and is deleted later. Then, when a handle runs, it is asked to cancel from the
  removed operator on; when that succeeds nothing else happens; when it fails, or when no
  handle runs, \<open>execute\<close> is called for the data source: a paused pipeline or an empty
  operator list only emits \<open>started\<close>, otherwise the whole remaining list is dispatched on
  a copy of the data of the data source.
\<close>

theorem operatorRemoved_effect:
  assumes d: "op_dataSource (operators s op) = d"
      and gone: "op \<notin> set (ds_operators (dataSources s d))"
  shows "\<exists>s1 s'. operatorRemoved_move s op = s1 \<and> operatorRemoved s op ok = Inr s'
     \<and> (if \<not> hasChildDataSource (operators s op) \<and> childDataSource (operators s op) \<noteq> None then
            (if ds_operators (dataSources s d) \<noteq> [] then
               s1 = s\<lparr>operators := (operators s)
                      (op := (operators s op)\<lparr>childDataSource := None\<rparr>,
                       last (ds_operators (dataSources s d)) :=
                         (operators s (last (ds_operators (dataSources s d))))
                           \<lparr>childDataSource := childDataSource (operators s op)\<rparr>),
                    trace := trace s @ [DataSourceMoved (last (ds_operators (dataSources s d)))
                                          (childDataSource (operators s op))]\<rparr>
             else
               (\<exists>c. childDataSource (operators s op) = Some c
                  \<and> s1 = s\<lparr>dataSources := (dataSources s)
                           (c := (dataSources s c)\<lparr>ds_operators := [], ds_deleteLater := True\<rparr>)\<rparr>))
          else s1 = s)
     \<and> (if isRunning s \<and> ok then
            s' = s1\<lparr>trace := trace s1 @ cancelFromEvents s op\<rparr>
          else if m_paused s \<or> ds_operators (dataSources s d) = [] then
            s' = s1\<lparr>trace := trace s1 @ cancelFromEvents s op @ [Started]\<rparr>
          else
            trace s' = trace s1 @ cancelFromEvents s op @ Started # cancelEvents s
                         @ [WorkerRun (nextFuture s) (nextObject s) (ds_operators (dataSources s d))]
            \<and> heap s' (nextObject s) = storedPayload s d
            \<and> m_future s' = Some (nextFuture s)
            \<and> operators s' = operators s1 \<and> dataSources s' = dataSources s1)"
proof -
  let ?s1 = "operatorRemoved_move s op"
  let ?x = "?s1\<lparr>trace := trace ?s1 @ cancelFromEvents s op\<rparr>"
  let ?Rel = "\<lambda>s1. if \<not> hasChildDataSource (operators s op) \<and> childDataSource (operators s op) \<noteq> None then
            (if ds_operators (dataSources s d) \<noteq> [] then
               s1 = s\<lparr>operators := (operators s)
                      (op := (operators s op)\<lparr>childDataSource := None\<rparr>,
                       last (ds_operators (dataSources s d)) :=
                         (operators s (last (ds_operators (dataSources s d))))
                           \<lparr>childDataSource := childDataSource (operators s op)\<rparr>),
                    trace := trace s @ [DataSourceMoved (last (ds_operators (dataSources s d)))
                                          (childDataSource (operators s op))]\<rparr>
             else
               (\<exists>c. childDataSource (operators s op) = Some c
                  \<and> s1 = s\<lparr>dataSources := (dataSources s)
                           (c := (dataSources s c)\<lparr>ds_operators := [], ds_deleteLater := True\<rparr>)\<rparr>))
          else s1 = s"
  let ?Ex = "\<lambda>s1 s'. if isRunning s \<and> ok then
            s' = s1\<lparr>trace := trace s1 @ cancelFromEvents s op\<rparr>
          else if m_paused s \<or> ds_operators (dataSources s d) = [] then
            s' = s1\<lparr>trace := trace s1 @ cancelFromEvents s op @ [Started]\<rparr>
          else
            trace s' = trace s1 @ cancelFromEvents s op @ Started # cancelEvents s
                         @ [WorkerRun (nextFuture s) (nextObject s) (ds_operators (dataSources s d))]
            \<and> heap s' (nextObject s) = storedPayload s d
            \<and> m_future s' = Some (nextFuture s)
            \<and> operators s' = operators s1 \<and> dataSources s' = dataSources s1"
  have rel: "?Rel ?s1"
    using operatorRemoved_move_effect[OF d gone] .
  have d1: "op_dataSource (operators ?s1 op) = d"
    by (simp add: operatorRemoved_move_frame d)
  have run1: "isRunning ?s1 = isRunning s"
    by (simp add: isRunning_def operatorRemoved_move_frame cong: option.case_cong)
  have ops1: "ds_operators (dataSources ?s1 d) = ds_operators (dataSources s d)"
    using operatorRemoved_move_operators[of s op] by (simp add: d)
  have xf: "m_paused ?x = m_paused s" "ds_operators (dataSources ?x d) = ds_operators (dataSources s d)"
    "nextFuture ?x = nextFuture s" "nextObject ?x = nextObject s"
    "cancelEvents ?x = cancelEvents s" "operators ?x = operators ?s1" "dataSources ?x = dataSources ?s1"
    "storedPayload ?x d = storedPayload s d"
    by (simp_all add: operatorRemoved_move_frame ops1 cancelEvents_def storedPayload_def
        cong: option.case_cong)
  have unfold: "operatorRemoved s op ok =
      (if isRunning s \<and> ok then Inr ?x else execute_start ?x d)"
    by (auto simp: operatorRemoved_def Let_def isRunning_def cancelFromEvents_def
        operatorRemoved_move_frame future_cancel_from_def emit_def d split: option.splits)
  have "\<exists>s'. operatorRemoved s op ok = Inr s' \<and> ?Ex ?s1 s'"
  proof (cases "isRunning s \<and> ok")
    case True
    then show ?thesis unfolding unfold by simp
  next
    case nr: False
    show ?thesis
    proof (cases "m_paused s \<or> ds_operators (dataSources s d) = []")
      case True
      then have "execute_start ?x d = Inr (emit ?x Started)"
        by (intro execute_start_gate) (simp add: ops1 operatorRemoved_move_frame)
      with nr True show ?thesis
        unfolding unfold by (auto simp: emit_def)
    next
      case False
      then have "\<not> m_paused ?x" "ds_operators (dataSources ?x d) \<noteq> []"
        by (simp_all add: ops1 operatorRemoved_move_frame)
      from execute_start_run_fields[OF this] obtain s' where
        "execute_start ?x d = Inr s'"
        "trace s' = trace ?x @ Started # cancelEvents ?x
                    @ [WorkerRun (nextFuture ?x) (nextObject ?x) (ds_operators (dataSources ?x d))]"
        "heap s' (nextObject ?x) = storedPayload ?x d"
        "m_future s' = Some (nextFuture ?x)"
        "operators s' = operators ?x \<and> dataSources s' = dataSources ?x"
        by blast
      with nr False show ?thesis
        unfolding unfold by (intro exI[of _ s']) (auto simp: xf ops1)
    qed
  qed
  with rel show ?thesis by blast
qed

text \<open>C7 as stated fails: in a paused pipeline with no handle running, the step is removed,
  the child is moved, and nothing is run.\<close>

theorem operatorRemoved_counterexample:
  "m_paused (pause stepRemoved) \<and> \<not> isRunning (pause stepRemoved)
   \<and> ds_operators (dataSources (pause stepRemoved) 0) = [1]
   \<and> (case operatorRemoved (pause stepRemoved) 2 True of
         Inr s' \<Rightarrow> trace s' = [DataSourceMoved 1 (Some 1), Started]
                  \<and> nextFuture s' = nextFuture stepRemoved
       | Inl e \<Rightarrow> False)"
  by (simp add: operatorRemoved_def operatorRemoved_move_def execute_start_def
      executePipelineBranch_def isRunning_def pause_def Let_def prim_defs ex_defs stepRemoved_def)

text \<open>
  C8, as the code has it. For an operator of the root data source: when it is the first one,
  the preview resolves at the next turn of the event loop with a new copy of the root's data
  and the worker is not called; otherwise the worker runs exactly the operators before it on
  a new copy of the root's data, and the preview is connected to the \<open>finished\<close> and
  \<open>canceled\<close> signals of that run.
\<close>

theorem getCopyOfImagePriorTo_root_step:
  assumes ops: "ds_operators (dataSources s (m_data s)) = pre @ op # post"
      and first: "op \<notin> set pre"
  shows "(case getCopyOfImagePriorTo s op of
            (img, s') \<Rightarrow>
              img_imageData (imageFutures s' img) = nextObject s
              \<and> heap s' (nextObject s) = storedPayload s (m_data s)
              \<and> (if pre = [] then
                    trace s' = trace s \<and> nextFuture s' = nextFuture s
                    \<and> img_future (imageFutures s' img) = None
                    \<and> deferred s' = deferred s @ [ImageFinished img True]
                  else
                    trace s' = trace s @ [WorkerRun (nextFuture s) (nextObject s) pre]
                    \<and> img_future (imageFutures s' img) = Some (nextFuture s)
                    \<and> f_finishedSlots (futures s' (nextFuture s)) = [ImageFutureFinished img]
                    \<and> f_canceledSlots (futures s' (nextFuture s)) = [ImageFutureCanceled img]
                    \<and> deferred s' = deferred s))"
proof (cases "pre = []")
  case True
  then have "\<not> (1 < length (ds_operators (dataSources s (m_data s)))
            \<and> 0 < indexOf (ds_operators (dataSources s (m_data s))) op)"
    using ops by simp
  from getCopy_immediate[OF this] True show ?thesis by simp
next
  case False
  have i: "indexOf (ds_operators (dataSources s (m_data s))) op = int (length pre)"
    using ops first by (simp add: indexOf_append)
  have "1 < length (ds_operators (dataSources s (m_data s)))"
    "0 < indexOf (ds_operators (dataSources s (m_data s))) op"
    using False by (simp_all add: i) (simp add: ops)
  from getCopy_run[OF this] False first show ?thesis by (simp add: ops indexOf_append)
qed

text \<open>C8 as stated fails for an operator of a child data source: operator 4 is the second
  operator of the data source 1, and the preview calls no worker and resolves with a copy of
  the root's data.\<close>

theorem getCopyOfImagePriorTo_child_step_counterexample:
  "op_dataSource (operators twoBranches 4) = 1
   \<and> ds_operators (dataSources twoBranches 1) = [3, 4]
   \<and> storedPayload twoBranches 1 = Some 111
   \<and> (case getCopyOfImagePriorTo twoBranches 4 of
        (img, s') \<Rightarrow> trace s' = trace twoBranches \<and> nextFuture s' = nextFuture twoBranches
           \<and> img_future (imageFutures s' img) = None
           \<and> deferred s' = [ImageFinished img True]
           \<and> heap s' (img_imageData (imageFutures s' img)) = Some 100)"
  by (simp add: getCopy_immediate twoBranches_def ex_defs storedPayload_def)

text \<open>
  C9. A preview changes no data source: every data source keeps the data object it holds and
  the content of that object, and \<open>setData\<close> is not called. The preview works on a copy
  only: the one data object it writes is the new one (\<open>nextObject\<close>), which no data
  source holds; that object is the image of the preview and, when the worker is called, the
  object handed to \<open>PipelineWorker::run\<close> and the result of the new handle. The new handle
  is connected to the two signals of the preview and to nothing of the pipeline; \<open>m_future\<close>,
  the operators and every earlier handle stay as they were.
\<close>

theorem getCopyOfImagePriorTo_keeps_stored_data:
  assumes "dataAllocated s" and "d < nextDataSource s"
  shows "(case getCopyOfImagePriorTo s op of
            (img, s') \<Rightarrow>
              dataSources s' = dataSources s
              \<and> storedPayload s' d = storedPayload s d
              \<and> filter isSetData (trace s') = filter isSetData (trace s)
              \<and> ds_data (dataSources s' d) \<noteq> Some (img_imageData (imageFutures s' img))
              \<and> img_imageData (imageFutures s' img) = nextObject s
              \<and> ds_data (dataSources s d) \<noteq> Some (nextObject s)
              \<and> heap s' = (heap s)(nextObject s := storedPayload s (m_data s))
              \<and> operators s' = operators s
              \<and> m_future s' = m_future s
              \<and> (trace s' = trace s \<and> futures s' = futures s \<and> nextFuture s' = nextFuture s
                 \<or> (\<exists>ops. trace s' = trace s @ [WorkerRun (nextFuture s) (nextObject s) ops]
                        \<and> futures s' = (futures s)(nextFuture s :=
                             \<lparr>f_operators = ops, f_result = nextObject s, f_running = True,
                              f_cancelRequested = False,
                              f_finishedSlots = [ImageFutureFinished img],
                              f_canceledSlots = [ImageFutureCanceled img],
                              f_deleteLater = False\<rparr>)
                        \<and> nextFuture s' = Suc (nextFuture s))))"
proof -
  have a: "case ds_data (dataSources s d) of None \<Rightarrow> True | Some a \<Rightarrow> a < nextObject s"
    using assms by (simp add: dataAllocated_def list_all_iff)
  then have ne: "ds_data (dataSources s d) \<noteq> Some (nextObject s)"
    by (auto split: option.splits)
  have sp: "\<And>h n. storedPayload (s\<lparr>heap := (heap s)(nextObject s := h), nextObject := n\<rparr>) d
              = storedPayload s d"
    using ne by (auto simp: storedPayload_def split: option.splits)
  show ?thesis
  proof (cases "1 < length (ds_operators (dataSources s (m_data s)))
            \<and> 0 < indexOf (ds_operators (dataSources s (m_data s))) op")
    case True
    then have "1 < length (ds_operators (dataSources s (m_data s)))"
      "0 < indexOf (ds_operators (dataSources s (m_data s))) op" by simp_all
    from getCopy_run[OF this] ne show ?thesis
      by (auto simp: storedPayload_def split: option.splits)
  next
    case False
    from getCopy_immediate[OF this] ne show ?thesis
      by (auto simp: storedPayload_def split: option.splits)
  qed
qed

text \<open>
  C10. A preview is computed from the root data source alone: the position of the operator
  is looked up in the root's operator list; when the root has more than one operator and the
  position is positive, the operators before it run on a copy of the root's data; otherwise
  the preview resolves at the next turn of the event loop with a copy of the root's data and
  nothing runs. No attribute of any operator, the data source it belongs to included, has a
  part in the result.
\<close>

theorem getCopyOfImagePriorTo_from_root:
  "getCopyOfImagePriorTo s op =
     (let ops = ds_operators (dataSources s (m_data s));
          i = indexOf ops op;
          img = nextImageFuture s;
          copy = nextObject s;
          s1 = s\<lparr>heap := (heap s)(copy := storedPayload s (m_data s)), nextObject := Suc copy\<rparr>
      in if 1 < length ops \<and> 0 < i then
           (img, s1\<lparr>futures := (futures s)(nextFuture s :=
                      \<lparr>f_operators = take (nat i) ops, f_result = copy, f_running = True,
                       f_cancelRequested = False, f_finishedSlots = [ImageFutureFinished img],
                       f_canceledSlots = [ImageFutureCanceled img], f_deleteLater = False\<rparr>),
                    nextFuture := Suc (nextFuture s),
                    trace := trace s @ [WorkerRun (nextFuture s) copy (take (nat i) ops)],
                    imageFutures := (imageFutures s)(img :=
                      \<lparr>img_operator = op, img_imageData = copy, img_future = Some (nextFuture s)\<rparr>),
                    nextImageFuture := Suc img\<rparr>)
         else
           (img, s1\<lparr>imageFutures := (imageFutures s)(img :=
                      \<lparr>img_operator = op, img_imageData = copy, img_future = None\<rparr>),
                    nextImageFuture := Suc img,
                    deferred := deferred s @ [ImageFinished img True]\<rparr>))
   \<and> getCopyOfImagePriorTo (s\<lparr>operators := owners\<rparr>) op =
       (case getCopyOfImagePriorTo s op of (img, s') \<Rightarrow> (img, s'\<lparr>operators := owners\<rparr>))"
proof (cases "1 < length (ds_operators (dataSources s (m_data s)))
            \<and> 0 < indexOf (ds_operators (dataSources s (m_data s))) op")
  have sp: "storedPayload (s\<lparr>operators := owners\<rparr>) (m_data s) = storedPayload s (m_data s)"
    by (simp add: storedPayload_def split: option.splits)
  case True
  then have c: "1 < length (ds_operators (dataSources (s\<lparr>operators := owners\<rparr>) (m_data (s\<lparr>operators := owners\<rparr>))))"
    "0 < indexOf (ds_operators (dataSources (s\<lparr>operators := owners\<rparr>) (m_data (s\<lparr>operators := owners\<rparr>)))) op"
    by simp_all
  from True show ?thesis
    by (simp add: getCopy_run[OF c] getCopy_run Let_def sp)
next
  have sp: "storedPayload (s\<lparr>operators := owners\<rparr>) (m_data s) = storedPayload s (m_data s)"
    by (simp add: storedPayload_def split: option.splits)
  case False
  then have c: "\<not> (1 < length (ds_operators (dataSources (s\<lparr>operators := owners\<rparr>) (m_data (s\<lparr>operators := owners\<rparr>))))
    \<and> 0 < indexOf (ds_operators (dataSources (s\<lparr>operators := owners\<rparr>) (m_data (s\<lparr>operators := owners\<rparr>)))) op)"
    by simp
  from False show ?thesis
    by (auto simp add: getCopy_immediate[OF c] getCopy_immediate Let_def sp)
qed

subsection \<open>Witnesses\<close>

lemma stopped_fields:
  "f_operators (futures (futureStopped afterRun 0) 0) = [1, 2]"
  "f_result (futures (futureStopped afterRun 0) 0) = 1"
  "\<not> hasChildDataSource (operators (futureStopped afterRun 0) 2)"
  "childDataSource (operators (futureStopped afterRun 0) 2) = None"
  "nextDataSource (futureStopped afterRun 0) = 1"
  by (simp_all add: futureStopped_def afterRun_def ex_defs)

theorem pipelineBranchFinished_success_witness:
  "f_operators (futures (futureStopped afterRun 0) 0) \<noteq> []
   \<and> \<not> hasChildDataSource (operators (futureStopped afterRun 0) 2)
   \<and> childDataSource (operators (futureStopped afterRun 0) 2) = None
   \<and> (\<exists>s2. execute_start
              ((futureStopped afterRun 0)\<lparr>dataSources := (dataSources (futureStopped afterRun 0))(1 :=
                   \<lparr>ds_label = ''Output'', ds_operators = [], ds_data = Some 1,
                    ds_parent = PipelineParent, ds_connected = True, ds_deleteLater = False\<rparr>),
                 operators := (operators (futureStopped afterRun 0))(2 :=
                   (operators (futureStopped afterRun 0) 2)\<lparr>childDataSource := Some 1\<rparr>),
                 nextDataSource := 2,
                 trace := trace (futureStopped afterRun 0)
                   @ [SetData 1 1, DataModified 1, NewChildDataSource 2 1]\<rparr>) 1 = Inr s2
         \<and> pipelineBranchFinished (futureStopped afterRun 0) 0 True = Inr (releaseFuture s2 0))"
proof -
  let ?s = "futureStopped afterRun 0"
  have h: "f_operators (futures ?s 0) \<noteq> []" "2 = last (f_operators (futures ?s 0))"
    "1 = f_result (futures ?s 0)"
    by (simp_all add: stopped_fields)
  have two: "Suc 1 = 2" by simp
  from pipelineBranchFinished_success[OF h] show ?thesis
    by (simp only: stopped_fields two option.case simp_thms list.simps)
qed

lemma first_completion:
  "(case pipelineBranchFinished (futureStopped afterRun 0) 0 True of
      Inr s' \<Rightarrow> childDataSource (operators s' 2) = Some 1
         \<and> ds_data (dataSources s' 1) = Some 1
         \<and> ds_parent (dataSources s' 1) = PipelineParent
         \<and> trace s' = [Started, WorkerRun 0 1 [1, 2], SetData 1 1, DataModified 1,
              NewChildDataSource 2 1, Started]
         \<and> m_future s' = None
    | Inl e \<Rightarrow> False)"
  by (simp add: pipelineBranchFinished_def storeResult_def ensureChild_def execute_start_def
      executePipelineBranch_def releaseFuture_def futureStopped_def afterRun_def prim_defs ex_defs)

theorem getCopyOfImagePriorTo_root_step_witness:
  "ds_operators (dataSources twoBranches (m_data twoBranches)) = [1] @ 2 # []
   \<and> (case getCopyOfImagePriorTo twoBranches 2 of
        (img, s') \<Rightarrow> trace s' = [WorkerRun 0 2 [1]]
           \<and> img_future (imageFutures s' img) = Some 0
           \<and> f_finishedSlots (futures s' 0) = [ImageFutureFinished img]
           \<and> f_canceledSlots (futures s' 0) = [ImageFutureCanceled img]
           \<and> heap s' 2 = Some 100)"
proof -
  have h: "ds_operators (dataSources twoBranches (m_data twoBranches)) = [1] @ 2 # []"
    "(2::nat) \<notin> set [1]"
    by (simp_all add: twoBranches_def ex_defs)
  have v: "trace twoBranches = []" "nextFuture twoBranches = 0" "nextObject twoBranches = 2"
    "storedPayload twoBranches (m_data twoBranches) = Some 100"
    by (simp_all add: twoBranches_def ex_defs storedPayload_def)
  from getCopyOfImagePriorTo_root_step[OF h] h(1) show ?thesis
    by (simp add: v split: prod.splits)
qed

lemma twoBranches_fields:
  "trace twoBranches = []" "storedPayload twoBranches 1 = Some 111"
  "nextObject twoBranches = 2" "nextFuture twoBranches = 0"
  "storedPayload twoBranches (m_data twoBranches) = Some 100"
  "ds_data (dataSources twoBranches 0) = Some 0" "ds_data (dataSources twoBranches 1) = Some 1"
  "ds_operators (dataSources twoBranches (m_data twoBranches)) = [1, 2]"
  by (simp_all add: twoBranches_def ex_defs storedPayload_def)

theorem getCopyOfImagePriorTo_keeps_stored_data_witness:
  "dataAllocated twoBranches
   \<and> (case getCopyOfImagePriorTo twoBranches 2 of
        (img, s') \<Rightarrow> dataSources s' = dataSources twoBranches
           \<and> storedPayload s' 1 = Some 111
           \<and> filter isSetData (trace s') = []
           \<and> img_imageData (imageFutures s' img) = 2
           \<and> ds_data (dataSources s' 1) = Some 1
           \<and> heap s' = (heap twoBranches)(2 := Some 100)
           \<and> m_future s' = m_future twoBranches
           \<and> trace s' = [WorkerRun 0 2 [1]]
           \<and> f_result (futures s' 0) = 2
           \<and> f_finishedSlots (futures s' 0) = [ImageFutureFinished img]
           \<and> f_canceledSlots (futures s' 0) = [ImageFutureCanceled img])"
proof -
  have h: "dataAllocated twoBranches" "1 < nextDataSource twoBranches"
    by (simp_all add: dataAllocated_def twoBranches_def ex_defs upt_rec)
  have c: "1 < length (ds_operators (dataSources twoBranches (m_data twoBranches)))"
    "0 < indexOf (ds_operators (dataSources twoBranches (m_data twoBranches))) 2"
    by (simp_all add: twoBranches_fields)
  have i: "nat (indexOf (ds_operators (dataSources twoBranches (m_data twoBranches))) 2) = 1"
    by (simp add: twoBranches_fields)
  from getCopyOfImagePriorTo_keeps_stored_data[OF h, of 2] getCopy_run[OF c] h(1) show ?thesis
    by (auto simp: twoBranches_fields twoBranches_fields[unfolded One_nat_def] i
        split: prod.splits)
qed

lemma stepAdded_fields:
  "op_dataSource (operators stepAdded 2) = 0"
  "ds_operators (dataSources stepAdded 0) = [1] @ [2]"
  "\<not> m_paused stepAdded"
  "trace stepAdded = []" "deferred stepAdded = []"
  "nextFuture stepAdded = 0" "nextObject stepAdded = 2"
  "cancelEvents stepAdded = []"
  "\<not> isCanceled stepAdded 1"
  "findTransformedDataSource stepAdded 0 = Some 1"
  "findTransformedDataSourceOperator stepAdded 0 = Some 1"
  "storedPayload stepAdded 1 = Some 111"
  "childDataSource (operators stepAdded 1) = Some 1"
  by (simp_all add: stepAdded_def ex_defs cancelEvents_def isCanceled_def storedPayload_def
      findTransformedDataSource_def findTransformedDataSourceOperator_def)

lemmas stepAdded_fields_Suc = stepAdded_fields[unfolded One_nat_def]

theorem operatorAdded_appended_witness:
  "op_dataSource (operators stepAdded 2) = 0
   \<and> ds_operators (dataSources stepAdded 0) = [1] @ [2]
   \<and> (\<exists>s1. operatorAdded_execute stepAdded 2 = Inr s1
          \<and> operatorAdded stepAdded 2 = Inr (operatorAdded_move s1 2)
          \<and> trace s1 = [Started, WorkerRun 0 2 [2]]
          \<and> heap s1 2 = Some 111
          \<and> trace (operatorAdded_move s1 2) = trace s1
          \<and> deferred (operatorAdded_move s1 2) = [DataSourceMoved 2 (Some 1)]
          \<and> childDataSource (operators (operatorAdded_move s1 2) 2) = Some 1
          \<and> childDataSource (operators (operatorAdded_move s1 2) 1) = None)"
proof -
  have h: "op_dataSource (operators stepAdded 2) = 0"
    "ds_operators (dataSources stepAdded 0) = [1] @ [2]" "(2::nat) \<notin> set [1]"
    by (simp_all add: stepAdded_fields)
  from operatorAdded_appended[OF h] obtain s1 where
    a: "operatorAdded_execute stepAdded 2 = Inr s1"
       "operatorAdded stepAdded 2 = Inr (operatorAdded_move s1 2)"
    and b: "trace s1 = [Started, WorkerRun 0 2 [2]]" "heap s1 2 = Some 111"
    and c: "trace (operatorAdded_move s1 2) = trace s1"
       "deferred (operatorAdded_move s1 2) = [DataSourceMoved 2 (Some 1)]"
       "\<forall>q. childDataSource (operators (operatorAdded_move s1 2) q)
                             = (if q = 2 then Some 1 else if q = 1 then None
                                else childDataSource (operators stepAdded q))"
    by (auto simp: stepAdded_fields stepAdded_fields_Suc)
  from c(3) have "childDataSource (operators (operatorAdded_move s1 2) 2) = Some 1"
    "childDataSource (operators (operatorAdded_move s1 2) 1) = None"
    by simp_all
  with a b c(1,2) h(1,2) show ?thesis by blast
qed

lemma stepRemoved_fields:
  "op_dataSource (operators stepRemoved 2) = 0"
  "ds_operators (dataSources stepRemoved 0) = [1]"
  "\<not> m_paused stepRemoved" "\<not> isRunning stepRemoved"
  "trace stepRemoved = []"
  "nextFuture stepRemoved = 0" "nextObject stepRemoved = 2"
  "cancelEvents stepRemoved = []" "cancelFromEvents stepRemoved 2 = []"
  "storedPayload stepRemoved 0 = Some 100"
  "\<not> hasChildDataSource (operators stepRemoved 2)"
  "childDataSource (operators stepRemoved 2) = Some 1"
  by (simp_all add: stepRemoved_def ex_defs cancelEvents_def cancelFromEvents_def isRunning_def
      storedPayload_def)

lemmas stepRemoved_fields_Suc = stepRemoved_fields[unfolded One_nat_def]

theorem operatorRemoved_effect_witness:
  "op_dataSource (operators stepRemoved 2) = 0
   \<and> ds_operators (dataSources stepRemoved 0) = [1]
   \<and> (\<exists>s'. operatorRemoved stepRemoved 2 False = Inr s'
          \<and> trace s' = [DataSourceMoved 1 (Some 1), Started, WorkerRun 0 2 [1]]
          \<and> heap s' 2 = Some 100
          \<and> childDataSource (operators s' 1) = Some 1
          \<and> childDataSource (operators s' 2) = None)"
proof -
  have h: "op_dataSource (operators stepRemoved 2) = 0"
    "2 \<notin> set (ds_operators (dataSources stepRemoved 0))"
    by (simp_all add: stepRemoved_fields)
  from operatorRemoved_effect[OF h, of False] obtain s1 s' where
    a: "operatorRemoved stepRemoved 2 False = Inr s'"
    and r: "s1 = stepRemoved\<lparr>operators := (operators stepRemoved)
                      (2 := (operators stepRemoved 2)\<lparr>childDataSource := None\<rparr>,
                       1 := (operators stepRemoved 1)\<lparr>childDataSource := Some 1\<rparr>),
                    trace := [DataSourceMoved 1 (Some 1)]\<rparr>"
    and e: "trace s' = trace s1 @ [Started, WorkerRun 0 2 [1]]" "heap s' 2 = Some 100"
       "operators s' = operators s1"
    by (auto simp: stepRemoved_fields stepRemoved_fields_Suc)
  from r e have "trace s' = [DataSourceMoved 1 (Some 1), Started, WorkerRun 0 2 [1]]"
    "childDataSource (operators s' 1) = Some 1" "childDataSource (operators s' 2) = None"
    by simp_all
  with a e(2) show ?thesis by (simp add: stepRemoved_fields)
qed

theorem executePipelineBranch_cancels_prior_handle_witness:
  "\<not> m_paused afterRun \<and> startInBranch afterRun 0 (Some 2) \<and> atMostOneActive afterRun
   \<and> m_future afterRun = Some 0 \<and> f_running (futures afterRun 0)
   \<and> (\<exists>s' data ops. executePipelineBranch afterRun 0 (Some 2) = Inr s'
         \<and> trace s' = [Started, WorkerRun 0 1 [1, 2], FutureCancel 0, WorkerRun 1 data ops]
         \<and> f_cancelRequested (futures s' 0)
         \<and> m_future s' = Some 1 \<and> isActive s' 1 \<and> atMostOneActive s')"
proof -
  have h: "\<not> m_paused afterRun" "ds_operators (dataSources afterRun 0) \<noteq> []"
    "startInBranch afterRun 0 (Some 2)" "atMostOneActive afterRun"
    "m_future afterRun = Some 0" "f_running (futures afterRun 0)" "0 < nextFuture afterRun"
    by (simp_all add: afterRun_def ex_defs startInBranch_def atMostOneActive_def isActive_def)
  have t: "trace afterRun = [Started, WorkerRun 0 1 [1, 2]]" "nextFuture afterRun = 1"
    by (simp_all add: afterRun_def)
  from executePipelineBranch_cancels_prior_handle[OF h] h show ?thesis
    by (simp add: t)
qed

theorem execute_gate_witness:
  "m_paused (pause twoSteps)
   \<and> executePipelineBranch (pause twoSteps) 0 None = Inr (pause twoSteps)
   \<and> execute_start (pause twoSteps) 0 = Inr (emit (pause twoSteps) Started)
   \<and> execute (pause twoSteps) = Inr (emit (pause twoSteps) Started)"
proof -
  have h: "m_paused (pause twoSteps) \<or> ds_operators (dataSources (pause twoSteps) 0) = []"
    by (simp add: pause_def)
  have m: "m_paused (pause twoSteps)" "0 = m_data (pause twoSteps)"
    by (simp_all add: pause_def ex_defs)
  from execute_gate[OF h, of None True] m show ?thesis
    by simp
qed

end
